theory Spec2Isabelle
  imports Complex_Main "HOL-Library.Multiset"
begin

section \<open>Python values used by the dashboard and the feedback store\<close>

text \<open>
  The exceptions the modelled code can raise. \<open>OverflowError\<close> is what
  \<^verbatim>\<open>datetime - timedelta\<close> raises when the result would lie before year 1;
  \<open>TypeError\<close> is what pandas raises when it is made to average text.
\<close>

datatype error = OverflowError | TypeError

subsection \<open>datetime\<close>

text \<open>
  A \<^verbatim>\<open>datetime.datetime\<close> value: the seven fields of a naive datetime.
\<close>

record datetime =
  year :: nat
  month :: nat
  day :: nat
  hour :: nat
  minute :: nat
  second :: nat
  microsecond :: nat

definition is_leap :: "nat \<Rightarrow> bool" where
  "is_leap y \<longleftrightarrow> y mod 4 = 0 \<and> (y mod 100 \<noteq> 0 \<or> y mod 400 = 0)"

definition days_in_month :: "nat \<Rightarrow> nat \<Rightarrow> nat" where
  "days_in_month y m =
     (if m = 2 then (if is_leap y then 29 else 28)
      else if m = 4 \<or> m = 6 \<or> m = 9 \<or> m = 11 then 30 else 31)"

text \<open>The values a \<^verbatim>\<open>datetime\<close> object can hold (MINYEAR = 1, MAXYEAR = 9999).\<close>

definition valid_datetime :: "datetime \<Rightarrow> bool" where
  "valid_datetime dt \<longleftrightarrow>
     1 \<le> year dt \<and> year dt \<le> 9999 \<and> 1 \<le> month dt \<and> month dt \<le> 12 \<and>
     1 \<le> day dt \<and> day dt \<le> days_in_month (year dt) (month dt) \<and>
     hour dt < 24 \<and> minute dt < 60 \<and> second dt < 60 \<and> microsecond dt < 1000000"

text \<open>
  What \<^verbatim>\<open>datetime.now()\<close> can return: a valid datetime read from the system clock,
  which does not run before the Unix epoch.
\<close>

definition clock_time :: "datetime \<Rightarrow> bool" where
  "clock_time dt \<longleftrightarrow> valid_datetime dt \<and> 1970 \<le> year dt"

text \<open>\<^verbatim>\<open>datetime(y, m, d)\<close>: midnight of the given day.\<close>

definition datetime_ymd :: "nat \<Rightarrow> nat \<Rightarrow> nat \<Rightarrow> datetime" where
  "datetime_ymd y m d =
     \<lparr>year = y, month = m, day = d, hour = 0, minute = 0, second = 0, microsecond = 0\<rparr>"

text \<open>
  The proleptic Gregorian ordinal of a date (1 for 0001-01-01) and
  \<^verbatim>\<open>weekday()\<close>, Monday = 0, as the standard library computes them.
\<close>

definition days_before_year :: "nat \<Rightarrow> nat" where
  "days_before_year y = (let p = y - 1 in p * 365 + p div 4 - p div 100 + p div 400)"

definition days_before_month :: "nat \<Rightarrow> nat \<Rightarrow> nat" where
  "days_before_month y m = sum_list (map (days_in_month y) [1..<m])"

definition toordinal :: "datetime \<Rightarrow> nat" where
  "toordinal dt = days_before_year (year dt) + days_before_month (year dt) (month dt) + day dt"

definition weekday :: "datetime \<Rightarrow> nat" where
  "weekday dt = (toordinal dt + 6) mod 7"

text \<open>
  \<^verbatim>\<open>dt - timedelta(days=k)\<close>: the calendar date moves back \<open>k\<close> days, the time of day is
  kept. Moving back from 0001-01-01 leaves the range of \<^verbatim>\<open>datetime\<close> and raises.
\<close>

definition prev_day :: "datetime \<Rightarrow> datetime option" where
  "prev_day dt =
     (if 1 < day dt then Some (dt\<lparr>day := day dt - 1\<rparr>)
      else if 1 < month dt
        then Some (dt\<lparr>month := month dt - 1, day := days_in_month (year dt) (month dt - 1)\<rparr>)
      else if 1 < year dt
        then Some (dt\<lparr>year := year dt - 1, month := 12, day := 31\<rparr>)
      else None)"

fun minus_days :: "datetime \<Rightarrow> nat \<Rightarrow> error + datetime" where
  "minus_days dt 0 = Inr dt"
| "minus_days dt (Suc k) =
     (case prev_day dt of None \<Rightarrow> Inl OverflowError | Some p \<Rightarrow> minus_days p k)"

subsection \<open>strftime\<close>

definition digit :: "nat \<Rightarrow> char" where
  "digit n = ''0123456789'' ! (n mod 10)"

text \<open>\<^verbatim>\<open>%m %d %H %M %S\<close>: two digits, zero padded (the fields are below 100).\<close>

definition pad2 :: "nat \<Rightarrow> string" where
  "pad2 n = [digit (n div 10), digit n]"

text \<open>
  \<^verbatim>\<open>%Y\<close>: the year in four digits, as \<^verbatim>\<open>strftime\<close> prints the years from 1000 on
  and as the database writes every year.
\<close>

definition pad4 :: "nat \<Rightarrow> string" where
  "pad4 n = pad2 (n div 100) @ pad2 n"

text \<open>\<^verbatim>\<open>strftime('%Y-%m-%d')\<close>\<close>

definition strftime_date :: "datetime \<Rightarrow> string" where
  "strftime_date dt = pad4 (year dt) @ ''-'' @ pad2 (month dt) @ ''-'' @ pad2 (day dt)"

text \<open>\<^verbatim>\<open>strftime('%Y-%m-%d %H:%M:%S')\<close>: the microseconds are not printed.\<close>

definition strftime_datetime :: "datetime \<Rightarrow> string" where
  "strftime_datetime dt =
     strftime_date dt @ '' '' @ pad2 (hour dt) @ '':'' @ pad2 (minute dt) @ '':'' @ pad2 (second dt)"

section \<open>The resume database\<close>

text \<open>
  Modelled from the spec: the declarations of the tables \<^verbatim>\<open>resume_data\<close> and
  \<^verbatim>\<open>resume_analysis\<close> live in \<^verbatim>\<open>config/database.py\<close>, which is not among the sources.
  A ResumeRecord has an id, a creation timestamp and a delimited skills string; an
  AnalysisResult holds the two scores and the id of its resume. The timestamp is kept as a
  \<open>datetime\<close>; the database holds it as the text \<^verbatim>\<open>YYYY-MM-DD HH:MM:SS\<close>, which is what
  the queries compare.
\<close>

record resume_data_row =
  rd_id :: int
  created_at :: datetime
  skills :: string

record resume_analysis_row =
  resume_id :: int
  ats_score :: rat
  keyword_match_score :: rat

record database =
  resume_data :: "resume_data_row list"
  resume_analysis :: "resume_analysis_row list"

text \<open>The text the database holds for a timestamp.\<close>

definition stored_text :: "datetime \<Rightarrow> string" where
  "stored_text dt = strftime_datetime dt"

text \<open>
  Comparison of two text values in SQLite (\<^verbatim>\<open>a <= b\<close>): byte by byte, a proper prefix
  being smaller.
\<close>

fun text_le :: "string \<Rightarrow> string \<Rightarrow> bool" where
  "text_le [] ys = True"
| "text_le (x # xs) [] = False"
| "text_le (x # xs) (y # ys) =
     ((of_char x :: nat) < of_char y \<or> (x = y \<and> text_le xs ys))"

subsection \<open>SQL aggregates\<close>

text \<open>\<^verbatim>\<open>COUNT(DISTINCT e)\<close>: the number of different non-NULL values.\<close>

definition count_distinct :: "'a option list \<Rightarrow> int" where
  "count_distinct vs = int (length (remdups (List.map_filter (\<lambda>v. v) vs)))"

text \<open>
  \<^verbatim>\<open>AVG(e)\<close>: the mean of the non-NULL values, NULL when there is none. The scores
  are exact rationals here; SQLite computes in double precision.
\<close>

definition sql_avg :: "rat option list \<Rightarrow> rat option" where
  "sql_avg vs =
     (let xs = List.map_filter (\<lambda>v. v) vs
      in if xs = [] then None else Some (sum_list xs / of_nat (length xs)))"

text \<open>\<^verbatim>\<open>ROUND(x, 1)\<close>: to one decimal, halves away from zero; NULL stays NULL.\<close>

definition round1 :: "rat \<Rightarrow> rat" where
  "round1 x =
     (if 0 \<le> x then of_int \<lfloor>x * 10 + 1 / 2\<rfloor> / 10 else - (of_int \<lfloor>- x * 10 + 1 / 2\<rfloor> / 10))"

definition sql_round1 :: "rat option \<Rightarrow> rat option" where
  "sql_round1 v = map_option round1 v"

subsection \<open>The metrics query\<close>

text \<open>
  \<^verbatim>\<open>FROM resume_data rd LEFT JOIN resume_analysis ra ON rd.id = ra.resume_id\<close>:
  every resume row with each of its analysis rows, or with NULLs when it has none.
\<close>

definition left_join :: "database \<Rightarrow> (resume_data_row \<times> resume_analysis_row option) list" where
  "left_join db =
     concat (map (\<lambda>rd.
        let matches = filter (\<lambda>ra. rd_id rd = resume_id ra) (resume_analysis db)
        in if matches = [] then [(rd, None)] else map (\<lambda>ra. (rd, Some ra)) matches)
       (resume_data db))"

text \<open>\<^verbatim>\<open>WHERE rd.created_at >= ?\<close>\<close>

definition where_created_at_ge ::
  "string \<Rightarrow> (resume_data_row \<times> resume_analysis_row option) list
     \<Rightarrow> (resume_data_row \<times> resume_analysis_row option) list" where
  "where_created_at_ge param rows =
     filter (\<lambda>(rd, ra). text_le param (stored_text (created_at rd))) rows"

text \<open>\<^verbatim>\<open>CASE WHEN ra.ats_score >= 70 THEN rd.id END\<close>: NULL when the test is not true.\<close>

definition high_case :: "resume_data_row \<times> resume_analysis_row option \<Rightarrow> int option" where
  "high_case = (\<lambda>(rd, ra).
     case ra of None \<Rightarrow> None
     | Some a \<Rightarrow> if 70 \<le> ats_score a then Some (rd_id rd) else None)"

text \<open>
  The row the SELECT returns (an aggregate query without GROUP BY returns exactly one):
  total_resumes, avg_ats_score, avg_keyword_score, high_scoring.
\<close>

definition metrics_query :: "database \<Rightarrow> string \<Rightarrow> int \<times> rat option \<times> rat option \<times> int" where
  "metrics_query db param =
     (let rows = where_created_at_ge param (left_join db)
      in (count_distinct (map (\<lambda>(rd, ra). Some (rd_id rd)) rows),
          sql_round1 (sql_avg (map (\<lambda>(rd, ra). map_option ats_score ra) rows)),
          sql_round1 (sql_avg (map (\<lambda>(rd, ra). map_option keyword_match_score ra) rows)),
          count_distinct (map high_case rows)))"

subsection \<open>get_resume_metrics\<close>

text \<open>One entry of the \<^verbatim>\<open>metrics\<close> dictionary.\<close>

record metric =
  m_total :: int
  m_ats_score :: rat
  m_keyword_score :: rat
  m_high_scoring :: int

text \<open>\<^verbatim>\<open>x or 0\<close> on a count and on an average that may be None.\<close>

definition int_or_0 :: "int \<Rightarrow> int" where
  "int_or_0 n = (if n = 0 then 0 else n)"

definition rat_or_0 :: "rat option \<Rightarrow> rat" where
  "rat_or_0 v = (case v of None \<Rightarrow> 0 | Some x \<Rightarrow> if x = 0 then 0 else x)"

definition metric_of_row :: "int \<times> rat option \<times> rat option \<times> int \<Rightarrow> metric" where
  "metric_of_row = (\<lambda>(r0, r1, r2, r3).
     \<lparr>m_total = int_or_0 r0, m_ats_score = rat_or_0 r1,
      m_keyword_score = rat_or_0 r2, m_high_scoring = int_or_0 r3\<rparr>)"

text \<open>The four periods and their \<^verbatim>\<open>start_date\<close>, in the order of the loop.\<close>

definition window_starts :: "datetime \<Rightarrow> error + (string \<times> datetime) list" where
  "window_starts now =
     (let start_of_day = now\<lparr>hour := 0, minute := 0, second := 0, microsecond := 0\<rparr>
      in case minus_days now (weekday now) of
           Inl e \<Rightarrow> Inl e
         | Inr start_of_week \<Rightarrow>
             (let start_of_month = now\<lparr>day := 1\<rparr>
              in Inr [(''Today'', start_of_day),
                      (''This Week'', start_of_week),
                      (''This Month'', start_of_month),
                      (''All Time'', datetime_ymd 2000 1 1)]))"

text \<open>
  \<^verbatim>\<open>get_resume_metrics\<close>, with the database and the value of \<^verbatim>\<open>datetime.now()\<close>
  as arguments. The result is the dictionary as the list of its items.
\<close>

definition get_resume_metrics :: "database \<Rightarrow> datetime \<Rightarrow> error + (string \<times> metric) list" where
  "get_resume_metrics db now =
     (case window_starts now of
        Inl e \<Rightarrow> Inl e
      | Inr ws \<Rightarrow>
          Inr (map (\<lambda>(period, start_date).
                 (period, metric_of_row (metrics_query db (strftime_datetime start_date)))) ws))"

subsection \<open>get_skill_distribution\<close>

text \<open>
  \<^verbatim>\<open>instr(X, Y)\<close> for a one-character \<open>Y\<close>: the position of its first occurrence in
  \<open>X\<close>, counted from 1, or 0 when there is none.
\<close>

fun instr :: "string \<Rightarrow> char \<Rightarrow> nat" where
  "instr [] c = 0"
| "instr (x # xs) c =
     (if x = c then 1 else (case instr xs c of 0 \<Rightarrow> 0 | Suc i \<Rightarrow> Suc (Suc i)))"

text \<open>
  \<^verbatim>\<open>substr(X, Y, Z)\<close> for \<open>Y \<ge> 0\<close> and \<open>Z \<ge> 0\<close>: the characters at the positions
  \<open>Y, \<dots>, Y + Z - 1\<close>; positions start at 1, so position 0 holds no character.
  \<^verbatim>\<open>substr(X, Y)\<close> runs to the end of \<open>X\<close>.
\<close>

definition substr3 :: "string \<Rightarrow> nat \<Rightarrow> nat \<Rightarrow> string" where
  "substr3 x y z = (let start = max y 1 in take (y + z - start) (drop (start - 1) x))"

definition substr2 :: "string \<Rightarrow> nat \<Rightarrow> string" where
  "substr2 x y = drop (max y 1 - 1) x"

text \<open>
  The recursive part of the common table expression \<^verbatim>\<open>split(skill, rest)\<close>: the rows
  that follow from one row. A row whose \<open>rest\<close> is empty has no successor; any other row
  has the successor
  \<^verbatim>\<open>(substr(rest, 0, instr(rest, ',')), substr(rest, instr(rest, ',') + 1))\<close>.
  The result is \<open>None\<close> when the recursion produces rows without end.
\<close>

partial_function (option) split :: "string \<Rightarrow> string \<Rightarrow> (string \<times> string) list option" where
  "split skill rest =
     (if rest = [] then Some [(skill, rest)]
      else Option.bind
             (split (substr3 rest 0 (instr rest CHR '',''))
                    (substr2 rest (instr rest CHR '','' + 1)))
             (\<lambda>rows. Some ((skill, rest) # rows)))"

declare split.simps [code]

text \<open>
  The whole table \<open>split\<close>: \<^verbatim>\<open>SELECT '', skills || ',' FROM resume_data\<close> and all rows
  that follow from these.
\<close>

fun split_table :: "resume_data_row list \<Rightarrow> (string \<times> string) list option" where
  "split_table [] = Some []"
| "split_table (rd # rds) =
     (case split [] (skills rd @ '','') of
        None \<Rightarrow> None
      | Some rows \<Rightarrow> map_option ((@) rows) (split_table rds))"

text \<open>
  \<^verbatim>\<open>SELECT skill, COUNT(*) FROM split WHERE skill <> '' GROUP BY skill\<close>: one row for
  each different skill, with the number of rows that carry it.
\<close>

definition group_count :: "(string \<times> string) list \<Rightarrow> (string \<times> int) list" where
  "group_count tbl =
     (let ss = filter (\<lambda>skill. skill \<noteq> []) (map fst tbl)
      in map (\<lambda>skill. (skill, int (count_list ss skill))) (remdups ss))"

text \<open>
  \<^verbatim>\<open>ORDER BY count DESC\<close> leaves the order of rows with equal counts open: \<open>out\<close> is a
  possible order of \<open>groups\<close> when it holds the same rows and its counts do not increase.
\<close>

definition order_by_count_desc :: "(string \<times> int) list \<Rightarrow> (string \<times> int) list \<Rightarrow> bool" where
  "order_by_count_desc groups out \<longleftrightarrow>
     mset out = mset groups \<and> sorted_wrt (\<lambda>a b. snd b \<le> snd a) out"

text \<open>
  \<^verbatim>\<open>get_skill_distribution\<close>: the results the method can return on a database. The rows
  fetched are the first 10 (\<^verbatim>\<open>LIMIT 10\<close>) of a possible order; the method returns the
  list of their skills and the list of their counts.
\<close>

inductive get_skill_distribution :: "database \<Rightarrow> string list \<times> int list \<Rightarrow> bool" where
  "split_table (resume_data db) = Some tbl \<Longrightarrow>
   order_by_count_desc (group_count tbl) out \<Longrightarrow>
   fetched = take 10 out \<Longrightarrow>
   get_skill_distribution db (map fst fetched, map snd fetched)"

subsection \<open>get_weekly_trends\<close>

text \<open>
  \<^verbatim>\<open>[(now - timedelta(days=x)).strftime('%Y-%m-%d') for x in xs]\<close>; the first
  subtraction that raises ends the comprehension.
\<close>

fun dates_back :: "datetime \<Rightarrow> nat list \<Rightarrow> error + string list" where
  "dates_back now [] = Inr []"
| "dates_back now (x # xs) =
     (case minus_days now x of
        Inl e \<Rightarrow> Inl e
      | Inr d \<Rightarrow>
          (case dates_back now xs of
             Inl e \<Rightarrow> Inl e
           | Inr ds \<Rightarrow> Inr (strftime_date d # ds)))"

text \<open>
  \<^verbatim>\<open>DATE(created_at)\<close>: the date part \<^verbatim>\<open>YYYY-MM-DD\<close> of the stored timestamp.
  \<^verbatim>\<open>DATE(?)\<close> returns the parameter itself, which is already a date in that form.
\<close>

definition sql_date :: "datetime \<Rightarrow> string" where
  "sql_date dt = take 10 (stored_text dt)"

text \<open>\<^verbatim>\<open>SELECT COUNT(*) FROM resume_data WHERE DATE(created_at) = DATE(?)\<close>\<close>

definition count_created_on :: "database \<Rightarrow> string \<Rightarrow> int" where
  "count_created_on db date =
     int (length (filter (\<lambda>rd. sql_date (created_at rd) = date) (resume_data db)))"

text \<open>\<^verbatim>\<open>d[-3:]\<close>: the last three characters (all of \<open>d\<close> when it is shorter).\<close>

definition last3 :: "string \<Rightarrow> string" where
  "last3 d = drop (length d - 3) d"

text \<open>\<^verbatim>\<open>range(6, -1, -1)\<close>\<close>

definition range_6_down :: "nat list" where
  "range_6_down = rev [0..<7]"

definition get_weekly_trends :: "database \<Rightarrow> datetime \<Rightarrow> error + (string list \<times> int list)" where
  "get_weekly_trends db now =
     (case dates_back now range_6_down of
        Inl e \<Rightarrow> Inl e
      | Inr dates \<Rightarrow> Inr (map last3 dates, map (count_created_on db) dates))"

section \<open>The feedback store\<close>

text \<open>
  The dictionary \<^verbatim>\<open>feedback_data\<close> that the form builds: six entries, in this order.
\<close>

record feedback_data =
  rating :: int
  usability_score :: int
  feature_satisfaction :: int
  missing_features :: string
  improvement_suggestions :: string
  user_experience :: string

text \<open>A row of the table \<^verbatim>\<open>feedback\<close>, as \<^verbatim>\<open>setup_database\<close> creates it.\<close>

record feedback_row =
  fb_id :: int
  fb_rating :: int
  fb_usability_score :: int
  fb_feature_satisfaction :: int
  fb_missing_features :: string
  fb_improvement_suggestions :: string
  fb_user_experience :: string
  fb_timestamp :: datetime

text \<open>
  The database file: the rows of the table, and the largest id handed out so far, which
  \<^verbatim>\<open>AUTOINCREMENT\<close> keeps.
\<close>

record feedback_db =
  feedback :: "feedback_row list"
  seq :: int

definition empty_feedback_db :: feedback_db where
  "empty_feedback_db = \<lparr>feedback = [], seq = 0\<rparr>"

text \<open>
  \<^verbatim>\<open>save_feedback\<close>: the values of the dictionary in their order and \<^verbatim>\<open>datetime.now()\<close>
  fill the seven columns named in the INSERT; the id is the next one.
\<close>

definition save_feedback :: "feedback_db \<Rightarrow> feedback_data \<Rightarrow> datetime \<Rightarrow> feedback_db" where
  "save_feedback s feedback_data now =
     (let new_id = seq s + 1
      in \<lparr>feedback = feedback s @
             [\<lparr>fb_id = new_id,
               fb_rating = rating feedback_data,
               fb_usability_score = usability_score feedback_data,
               fb_feature_satisfaction = feature_satisfaction feedback_data,
               fb_missing_features = missing_features feedback_data,
               fb_improvement_suggestions = improvement_suggestions feedback_data,
               fb_user_experience = user_experience feedback_data,
               fb_timestamp = now\<rparr>],
          seq = new_id\<rparr>)"

text \<open>
  The text that the \<^verbatim>\<open>sqlite3\<close> module stores for \<^verbatim>\<open>datetime.now()\<close>:
  \<^verbatim>\<open>isoformat(" ")\<close>, with the six digits of the microseconds when they are not 0.
\<close>

definition adapt_datetime :: "datetime \<Rightarrow> string" where
  "adapt_datetime dt =
     strftime_datetime dt @
     (if microsecond dt = 0 then []
      else ''.'' @ pad2 (microsecond dt div 10000) @ pad2 (microsecond dt div 100) @
           pad2 (microsecond dt))"

text \<open>
  A column of the data frame that \<^verbatim>\<open>pd.read_sql_query("SELECT * FROM feedback", conn)\<close>
  returns: the INTEGER columns hold integers, the TEXT columns and the timestamp hold
  strings (dtype \<^verbatim>\<open>object\<close>).
\<close>

datatype series = Int64 "int list" | Object "string list"

definition read_sql_query :: "feedback_db \<Rightarrow> (string \<times> series) list" where
  "read_sql_query s =
     (let rows = feedback s
      in [(''id'', Int64 (map fb_id rows)),
          (''rating'', Int64 (map fb_rating rows)),
          (''usability_score'', Int64 (map fb_usability_score rows)),
          (''feature_satisfaction'', Int64 (map fb_feature_satisfaction rows)),
          (''missing_features'', Object (map fb_missing_features rows)),
          (''improvement_suggestions'', Object (map fb_improvement_suggestions rows)),
          (''user_experience'', Object (map fb_user_experience rows)),
          (''timestamp'', Object (map (\<lambda>row. adapt_datetime (fb_timestamp row)) rows))])"

text \<open>\<^verbatim>\<open>df.empty\<close>: the frame has no rows (it always has its eight columns).\<close>

definition df_empty :: "(string \<times> series) list \<Rightarrow> bool" where
  "df_empty df \<longleftrightarrow> df = [] \<or> (\<exists>(name, column) \<in> set df.
                       case column of Int64 xs \<Rightarrow> xs = [] | Object ts \<Rightarrow> ts = [])"

text \<open>
  The mean of one column of a frame with rows, as \<^verbatim>\<open>DataFrame.mean()\<close> takes it when
  \<^verbatim>\<open>numeric_only\<close> is not given (it is then \<^verbatim>\<open>False\<close>): an integer column has its
  arithmetic mean; for a column of strings pandas refuses to turn text into numbers and
  raises \<^verbatim>\<open>TypeError\<close>. The mean is an exact rational here; pandas computes in double
  precision.
\<close>

definition column_mean :: "int list \<Rightarrow> rat" where
  "column_mean xs = of_int (sum_list xs) / of_nat (length xs)"

fun series_mean :: "series \<Rightarrow> error + rat" where
  "series_mean (Int64 xs) = Inr (column_mean xs)"
| "series_mean (Object ts) = Inl TypeError"

text \<open>\<^verbatim>\<open>df.mean().to_dict()\<close>: the mean of every column under its name.\<close>

fun df_mean_to_dict :: "(string \<times> series) list \<Rightarrow> error + (string \<rightharpoonup> rat)" where
  "df_mean_to_dict [] = Inr Map.empty"
| "df_mean_to_dict ((name, column) # df) =
     (case series_mean column of
        Inl e \<Rightarrow> Inl e
      | Inr v \<Rightarrow>
          (case df_mean_to_dict df of
             Inl e \<Rightarrow> Inl e
           | Inr stats \<Rightarrow> Inr (stats(name \<mapsto> v))))"

text \<open>
  \<^verbatim>\<open>get_feedback_stats\<close>: \<^verbatim>\<open>df.mean().to_dict() if not df.empty else {}\<close>.
\<close>

definition get_feedback_stats :: "feedback_db \<Rightarrow> error + (string \<rightharpoonup> rat)" where
  "get_feedback_stats s =
     (let df = read_sql_query s
      in if \<not> df_empty df then df_mean_to_dict df else Inr Map.empty)"

section \<open>Notions the properties are stated with\<close>

text \<open>
  A timestamp \<open>t\<close> is at or after \<open>s\<close> when its fields from the year down to the second are
  not smaller, the earlier field deciding.
\<close>

definition fields :: "datetime \<Rightarrow> nat list" where
  "fields dt = [year dt, month dt, day dt, hour dt, minute dt, second dt]"

fun lex_le :: "nat list \<Rightarrow> nat list \<Rightarrow> bool" where
  "lex_le [] ys = True"
| "lex_le (x # xs) [] = False"
| "lex_le (x # xs) (y # ys) = (x < y \<or> (x = y \<and> lex_le xs ys))"

definition at_or_after :: "datetime \<Rightarrow> datetime \<Rightarrow> bool" where
  "at_or_after t s \<longleftrightarrow> lex_le (fields s) (fields t)"

text \<open>Two timestamps lie on the same calendar day.\<close>

definition same_day :: "datetime \<Rightarrow> datetime \<Rightarrow> bool" where
  "same_day a b \<longleftrightarrow> year a = year b \<and> month a = month b \<and> day a = day b"

text \<open>One calendar day is before another.\<close>

definition day_before :: "datetime \<Rightarrow> datetime \<Rightarrow> bool" where
  "day_before a b \<longleftrightarrow>
     year a < year b \<or> (year a = year b \<and> (month a < month b \<or> (month a = month b \<and> day a < day b)))"

text \<open>
  Splitting a string on commas, by the words of the contract: the pieces between the
  commas, and of these the ones that are not empty.
\<close>

fun split_on_commas :: "string \<Rightarrow> string list" where
  "split_on_commas [] = [[]]"
| "split_on_commas (c # cs) =
     (if c = CHR '','' then [] # split_on_commas cs
      else (case split_on_commas cs of
              [] \<Rightarrow> [[c]]
            | p # ps \<Rightarrow> (c # p) # ps))"

definition tokens :: "string \<Rightarrow> string list" where
  "tokens s = filter (\<lambda>t. t \<noteq> []) (split_on_commas s)"

text \<open>All tokens of all records, and how often a token occurs among them.\<close>

definition all_tokens :: "database \<Rightarrow> string list" where
  "all_tokens db = concat (map (\<lambda>rd. tokens (skills rd)) (resume_data db))"

definition occurrences :: "database \<Rightarrow> string \<Rightarrow> int" where
  "occurrences db t = int (count_list (all_tokens db) t)"

text \<open>Pieces put together with commas between them.\<close>

fun join_commas :: "string list \<Rightarrow> string" where
  "join_commas [] = []"
| "join_commas [p] = p"
| "join_commas (p # q # ps) = p @ '','' @ join_commas (q # ps)"

text \<open>
  The stored timestamps are timestamps: every \<^verbatim>\<open>created_at\<close> is a valid datetime.
\<close>

definition valid_database :: "database \<Rightarrow> bool" where
  "valid_database db \<longleftrightarrow> (\<forall>rd \<in> set (resume_data db). valid_datetime (created_at rd))"

text \<open>The resume records created at or after the start of a window.\<close>

definition in_window :: "database \<Rightarrow> datetime \<Rightarrow> resume_data_row set" where
  "in_window db start = {rd \<in> set (resume_data db). at_or_after (created_at rd) start}"

text \<open>A resume is high scoring when an analysis of it has an \<^verbatim>\<open>ats_score\<close> of 70 or more.\<close>

definition high_scoring_resume :: "database \<Rightarrow> resume_data_row \<Rightarrow> bool" where
  "high_scoring_resume db rd \<longleftrightarrow>
     (\<exists>ra \<in> set (resume_analysis db). resume_id ra = rd_id rd \<and> 70 \<le> ats_score ra)"

subsection \<open>Example data\<close>

text \<open>Wednesday, 3 January 2024, in the afternoon.\<close>

definition example_now :: datetime where
  "example_now =
     \<lparr>year = 2024, month = 1, day = 3, hour = 15, minute = 30, second = 45, microsecond = 0\<rparr>"

text \<open>
  Three resumes: one of this morning, one of Monday morning, one of 1999; the first two
  have an analysis.
\<close>

definition example_db :: database where
  "example_db =
     \<lparr>resume_data =
        [\<lparr>rd_id = 1,
          created_at = \<lparr>year = 2024, month = 1, day = 3, hour = 9, minute = 0, second = 0,
                        microsecond = 0\<rparr>,
          skills = ''Python,SQL''\<rparr>,
         \<lparr>rd_id = 2,
          created_at = \<lparr>year = 2024, month = 1, day = 1, hour = 9, minute = 0, second = 0,
                        microsecond = 0\<rparr>,
          skills = ''Python,Go''\<rparr>,
         \<lparr>rd_id = 3,
          created_at = \<lparr>year = 1999, month = 12, day = 31, hour = 23, minute = 59, second = 59,
                        microsecond = 0\<rparr>,
          skills = ''SQL''\<rparr>],
      resume_analysis =
        [\<lparr>resume_id = 1, ats_score = 85, keyword_match_score = 60\<rparr>,
         \<lparr>resume_id = 2, ats_score = 55, keyword_match_score = 40\<rparr>]\<rparr>"

text \<open>Every stored score lies between 0 and 100.\<close>

definition scores_in_range :: "database \<Rightarrow> bool" where
  "scores_in_range db \<longleftrightarrow>
     (\<forall>ra \<in> set (resume_analysis db).
        0 \<le> ats_score ra \<and> ats_score ra \<le> 100 \<and>
        0 \<le> keyword_match_score ra \<and> keyword_match_score ra \<le> 100)"

text \<open>The entry of a window without data.\<close>

definition zero_metric :: metric where
  "zero_metric = \<lparr>m_total = 0, m_ats_score = 0, m_keyword_score = 0, m_high_scoring = 0\<rparr>"

text \<open>The database without any row.\<close>

definition empty_db :: database where
  "empty_db = \<lparr>resume_data = [], resume_analysis = []\<rparr>"

text \<open>A database whose only resume was created before the year 2000.\<close>

definition old_db :: database where
  "old_db =
     \<lparr>resume_data =
        [\<lparr>rd_id = 1,
          created_at = \<lparr>year = 1999, month = 12, day = 31, hour = 23, minute = 59, second = 59,
                        microsecond = 0\<rparr>,
          skills = ''SQL''\<rparr>],
      resume_analysis = []\<rparr>"

text \<open>
  Sunday, 3 March 2024, and a database with a resume of 29 February and one of
  25 February.
\<close>

definition trend_now :: datetime where
  "trend_now =
     \<lparr>year = 2024, month = 3, day = 3, hour = 15, minute = 30, second = 45, microsecond = 0\<rparr>"

definition trend_db :: database where
  "trend_db =
     \<lparr>resume_data =
        [\<lparr>rd_id = 1,
          created_at = \<lparr>year = 2024, month = 2, day = 29, hour = 8, minute = 15, second = 0,
                        microsecond = 0\<rparr>,
          skills = ''Python''\<rparr>,
         \<lparr>rd_id = 2,
          created_at = \<lparr>year = 2024, month = 2, day = 25, hour = 23, minute = 59, second = 59,
                        microsecond = 0\<rparr>,
          skills = ''Go''\<rparr>],
      resume_analysis = []\<rparr>"

text \<open>A feedback record as the form builds it, and a store with three of them.\<close>

definition example_feedback :: "int \<Rightarrow> feedback_data" where
  "example_feedback r =
     \<lparr>rating = r, usability_score = 4, feature_satisfaction = 3, missing_features = ''dark mode'',
      improvement_suggestions = [], user_experience = ''good''\<rparr>"

definition three_feedback_db :: feedback_db where
  "three_feedback_db =
     save_feedback
       (save_feedback
          (save_feedback empty_feedback_db (example_feedback 5) example_now)
          (example_feedback 3) example_now)
       (example_feedback 4) example_now"

text \<open>The groups of the histogram: every different token with its number of occurrences.\<close>

definition skill_groups :: "database \<Rightarrow> (string \<times> int) list" where
  "skill_groups db = map (\<lambda>t. (t, occurrences db t)) (remdups (all_tokens db))"

text \<open>
  Two records that differ in a space after the comma, and two that differ in the case of
  a letter.
\<close>

definition spaced_db :: database where
  "spaced_db =
     \<lparr>resume_data =
        [\<lparr>rd_id = 1, created_at = datetime_ymd 2024 1 2, skills = ''Python,SQL''\<rparr>,
         \<lparr>rd_id = 2, created_at = datetime_ymd 2024 1 3, skills = ''Python, SQL''\<rparr>],
      resume_analysis = []\<rparr>"

definition case_db :: database where
  "case_db =
     \<lparr>resume_data =
        [\<lparr>rd_id = 1, created_at = datetime_ymd 2024 1 2, skills = ''python''\<rparr>,
         \<lparr>rd_id = 2, created_at = datetime_ymd 2024 1 3, skills = ''Python''\<rparr>],
      resume_analysis = []\<rparr>"

section \<open>Properties\<close>

subsection \<open>Printed timestamps and their order\<close>


lemma of_char_digit_aux: "k < 10 \<Longrightarrow> (of_char (''0123456789'' ! k) :: nat) = 48 + k"
proof -
  assume "k < 10"
  then have "k = 0 \<or> k = 1 \<or> k = 2 \<or> k = 3 \<or> k = 4 \<or> k = 5 \<or> k = 6 \<or> k = 7 \<or> k = 8 \<or> k = 9"
    by arith
  then show ?thesis by (elim disjE) simp_all
qed

lemma of_char_digit: "(of_char (digit n) :: nat) = 48 + n mod 10"
  by (simp add: digit_def of_char_digit_aux)

lemma digit_eq_iff: "digit a = digit b \<longleftrightarrow> a mod 10 = b mod 10"
proof -
  have "digit a = digit b \<longleftrightarrow> (of_char (digit a) :: nat) = of_char (digit b)" by simp
  then show ?thesis by (simp add: of_char_digit)
qed

lemma text_le_refl: "text_le xs xs"
  by (induction xs) auto

lemma text_le_append:
  "length xs = length ys \<Longrightarrow>
   text_le (xs @ us) (ys @ vs) = (if xs = ys then text_le us vs else text_le xs ys)"
  by (induction xs ys rule: list_induct2) (auto simp: text_le_refl)

lemma split_digits_eq:
  fixes a b :: nat
  shows "a = b \<longleftrightarrow> a div k = b div k \<and> a mod k = b mod k"
  by (metis div_mult_mod_eq)

lemma split_digits_le:
  fixes a b :: nat
  assumes "0 < k"
  shows "a \<le> b \<longleftrightarrow> a div k < b div k \<or> (a div k = b div k \<and> a mod k \<le> b mod k)"
proof (cases "a div k = b div k")
  case True
  then show ?thesis
    by (metis add_le_cancel_left div_mult_mod_eq less_irrefl)
next
  case False
  show ?thesis
  proof (cases "a div k < b div k")
    case True
    then have "a < b" using assms
      by (metis div_le_mono leD leI)
    with True show ?thesis by simp
  next
    case F2: False
    with False have "b div k < a div k" by simp
    then have "b < a" using assms by (metis div_le_mono leD leI)
    with F2 False show ?thesis by simp
  qed
qed

lemma pad2_eq_iff: "a < 100 \<Longrightarrow> b < 100 \<Longrightarrow> pad2 a = pad2 b \<longleftrightarrow> a = b"
  unfolding pad2_def using split_digits_eq [of a b 10] by (simp add: digit_eq_iff)

lemma text_le_pad2: "a < 100 \<Longrightarrow> b < 100 \<Longrightarrow> text_le (pad2 a) (pad2 b) \<longleftrightarrow> a \<le> b"
  unfolding pad2_def using split_digits_le [of 10 a b]
  by (auto simp add: digit_eq_iff of_char_digit)

lemma length_pad2 [simp]: "length (pad2 n) = 2" by (simp add: pad2_def)
lemma length_pad4 [simp]: "length (pad4 n) = 4" by (simp add: pad4_def)

lemma pad2_mod: "pad2 (a mod 100) = pad2 a"
proof -
  have "a mod (10 * 10) = 10 * (a div 10 mod 10) + a mod 10"
    by (rule mod_mult2_eq)
  then have "a mod 100 = 10 * (a div 10 mod 10) + a mod 10" by simp
  then have "a mod 100 div 10 = a div 10 mod 10" by simp
  then show ?thesis
    unfolding pad2_def by (simp add: digit_eq_iff mod_mod_cancel)
qed

lemma pad4_eq_iff: "a < 10000 \<Longrightarrow> b < 10000 \<Longrightarrow> pad4 a = pad4 b \<longleftrightarrow> a = b"
proof -
  assume a: "a < 10000" and b: "b < 10000"
  have "pad4 a = pad4 b \<longleftrightarrow> pad2 (a div 100) = pad2 (b div 100) \<and> pad2 (a mod 100) = pad2 (b mod 100)"
    by (simp add: pad4_def pad2_mod)
  also have "\<dots> \<longleftrightarrow> a div 100 = b div 100 \<and> a mod 100 = b mod 100"
    using a b by (simp add: pad2_eq_iff less_mult_imp_div_less)
  also have "\<dots> \<longleftrightarrow> a = b" using split_digits_eq [of a b 100] by simp
  finally show ?thesis .
qed

lemma text_le_pad4: "a < 10000 \<Longrightarrow> b < 10000 \<Longrightarrow> text_le (pad4 a) (pad4 b) \<longleftrightarrow> a \<le> b"
proof -
  assume a: "a < 10000" and b: "b < 10000"
  have "text_le (pad4 a) (pad4 b) \<longleftrightarrow>
      (if pad2 (a div 100) = pad2 (b div 100) then text_le (pad2 (a mod 100)) (pad2 (b mod 100))
       else text_le (pad2 (a div 100)) (pad2 (b div 100)))"
    using text_le_append [of "pad2 (a div 100)" "pad2 (b div 100)" "pad2 a" "pad2 b"] 
    by (simp add: pad4_def pad2_mod)
  also have "\<dots> \<longleftrightarrow> (if a div 100 = b div 100 then a mod 100 \<le> b mod 100 else a div 100 \<le> b div 100)"
    using a b by (simp add: pad2_eq_iff text_le_pad2 less_mult_imp_div_less)
  also have "\<dots> \<longleftrightarrow> a \<le> b" using split_digits_le [of 100 a b] by auto
  finally show ?thesis .
qed


lemma valid_printable:
  "valid_datetime dt \<Longrightarrow> year dt < 10000 \<and> month dt < 100 \<and> day dt < 100 \<and> hour dt < 100 \<and> minute dt < 100 \<and> second dt < 100"
  by (auto simp: valid_datetime_def days_in_month_def split: if_splits)

lemma text_le_field:
  assumes "length p = length q"
  shows "text_le (p @ c # us) (q @ c # vs) = (if p = q then text_le us vs else text_le p q)"
  using text_le_append [OF assms, of "c # us" "c # vs"] by simp

lemma text_le_strftime:
  assumes "valid_datetime s" "valid_datetime t"
  shows "text_le (strftime_datetime s) (strftime_datetime t) \<longleftrightarrow> lex_le (fields s) (fields t)"
proof -
  note ps = valid_printable [OF assms(1)] and pt = valid_printable [OF assms(2)]
  have last: "\<And>a b. text_le (pad2 a) (pad2 b) = text_le (pad2 a @ []) (pad2 b @ [])" by simp
  show ?thesis
    unfolding strftime_datetime_def strftime_date_def fields_def
    using ps pt
    by (auto simp add: text_le_field pad2_eq_iff pad4_eq_iff text_le_pad2 text_le_pad4)
qed

subsection \<open>The join and the aggregates\<close>

lemma set_map_filter_id: "set (List.map_filter (\<lambda>v. v) vs) = {x. Some x \<in> set vs}"
  by (force simp: List.map_filter_def image_iff)

lemma count_distinct_card: "count_distinct vs = int (card {x. Some x \<in> set vs})"
  by (simp add: count_distinct_def length_remdups_card_conv set_map_filter_id)

lemma in_left_join:
  "(rd, ra) \<in> set (left_join db) \<longleftrightarrow>
     rd \<in> set (resume_data db) \<and>
     (case ra of
        None \<Rightarrow> (\<forall>a \<in> set (resume_analysis db). rd_id rd \<noteq> resume_id a)
      | Some a \<Rightarrow> a \<in> set (resume_analysis db) \<and> rd_id rd = resume_id a)"
  unfolding left_join_def Let_def
  by (cases ra) (auto simp: filter_empty_conv)

lemma in_where:
  assumes "valid_database db" "valid_datetime start"
  shows "(rd, ra) \<in> set (where_created_at_ge (strftime_datetime start) (left_join db)) \<longleftrightarrow>
         (rd, ra) \<in> set (left_join db) \<and> at_or_after (created_at rd) start"
proof (cases "(rd, ra) \<in> set (left_join db)")
  case True
  then have "valid_datetime (created_at rd)"
    using assms(1) by (simp add: in_left_join valid_database_def)
  then show ?thesis
    using True assms(2)
    by (simp add: where_created_at_ge_def stored_text_def text_le_strftime at_or_after_def)
next
  case False
  then show ?thesis by (simp add: where_created_at_ge_def)
qed

lemma left_join_fst: "rd \<in> set (resume_data db) \<Longrightarrow> \<exists>ra. (rd, ra) \<in> set (left_join db)"
proof -
  assume rd: "rd \<in> set (resume_data db)"
  show ?thesis
  proof (cases "\<forall>a \<in> set (resume_analysis db). rd_id rd \<noteq> resume_id a")
    case True
    with rd have "(rd, None) \<in> set (left_join db)" by (simp add: in_left_join)
    then show ?thesis ..
  next
    case False
    then obtain a where "a \<in> set (resume_analysis db)" "rd_id rd = resume_id a" by blast
    with rd have "(rd, Some a) \<in> set (left_join db)" by (simp add: in_left_join)
    then show ?thesis ..
  qed
qed

lemma total_ids:
  assumes "valid_database db" "valid_datetime start"
  shows "{x. Some x \<in> set (map (\<lambda>(rd, ra). Some (rd_id rd))
            (where_created_at_ge (strftime_datetime start) (left_join db)))} = rd_id ` in_window db start"
  (is "?L = ?R")
proof
  show "?L \<subseteq> ?R"
    using in_where [OF assms] by (auto simp: in_window_def in_left_join)
  show "?R \<subseteq> ?L"
  proof
    fix x assume "x \<in> ?R"
    then obtain rd where rd: "rd \<in> set (resume_data db)" "at_or_after (created_at rd) start" "x = rd_id rd"
      by (auto simp: in_window_def)
    from left_join_fst [OF rd(1)] obtain ra where "(rd, ra) \<in> set (left_join db)" ..
    with rd(2) have "(rd, ra) \<in> set (where_created_at_ge (strftime_datetime start) (left_join db))"
      by (simp add: in_where [OF assms])
    with rd(3) show "x \<in> ?L" by force
  qed
qed

lemma high_ids:
  assumes "valid_database db" "valid_datetime start"
  shows "{x. Some x \<in> set (map high_case
            (where_created_at_ge (strftime_datetime start) (left_join db)))} =
         rd_id ` {rd \<in> in_window db start. high_scoring_resume db rd}"
  (is "?L = ?R")
proof
  show "?L \<subseteq> ?R"
  proof
    fix x assume "x \<in> ?L"
    then obtain rd ra where row: "(rd, ra) \<in> set (where_created_at_ge (strftime_datetime start) (left_join db))"
      and h: "high_case (rd, ra) = Some x" by auto
    from h obtain a where a: "ra = Some a" "70 \<le> ats_score a" "x = rd_id rd"
      by (auto simp: high_case_def split: option.splits if_splits)
    from row have "(rd, Some a) \<in> set (left_join db)" "at_or_after (created_at rd) start"
      using in_where [OF assms] a(1) by auto
    then have "rd \<in> in_window db start" "high_scoring_resume db rd"
      using a by (auto simp: in_left_join in_window_def high_scoring_resume_def)
    then show "x \<in> ?R" using a(3) by blast
  qed
  show "?R \<subseteq> ?L"
  proof
    fix x assume "x \<in> ?R"
    then obtain rd a where rd: "rd \<in> set (resume_data db)" "at_or_after (created_at rd) start" "x = rd_id rd"
      and a: "a \<in> set (resume_analysis db)" "resume_id a = rd_id rd" "70 \<le> ats_score a"
      by (auto simp: in_window_def high_scoring_resume_def)
    then have "(rd, Some a) \<in> set (left_join db)" by (simp add: in_left_join)
    with rd(2) have "(rd, Some a) \<in> set (where_created_at_ge (strftime_datetime start) (left_join db))"
      by (simp add: in_where [OF assms])
    moreover have "high_case (rd, Some a) = Some x" using a rd(3) by (simp add: high_case_def)
    ultimately show "x \<in> ?L" by force
  qed
qed

lemma metrics_query_counts:
  assumes "valid_database db" "valid_datetime start"
  shows "m_total (metric_of_row (metrics_query db (strftime_datetime start))) = int (card (rd_id ` in_window db start))"
    and "m_high_scoring (metric_of_row (metrics_query db (strftime_datetime start))) =
           int (card (rd_id ` {rd \<in> in_window db start. high_scoring_resume db rd}))"
  by (simp_all del: set_map add: metrics_query_def metric_of_row_def Let_def int_or_0_def
        count_distinct_card total_ids [OF assms] high_ids [OF assms])

subsection \<open>The calendar\<close>

lemma days_in_month_pos: "1 \<le> days_in_month y m"
  by (simp add: days_in_month_def)

lemma prev_day_valid:
  assumes "valid_datetime dt" "1 < year dt"
  shows "\<exists>p. prev_day dt = Some p \<and> valid_datetime p \<and> year dt \<le> Suc (year p) \<and> year p \<le> year dt \<and>
             hour p = hour dt \<and> minute p = minute dt \<and> second p = second dt \<and>
             microsecond p = microsecond dt"
proof -
  consider (day) "1 < day dt" | (month) "\<not> 1 < day dt" "1 < month dt"
    | (year) "\<not> 1 < day dt" "\<not> 1 < month dt" by blast
  then show ?thesis
  proof cases
    case day
    then have p: "prev_day dt = Some (dt\<lparr>day := day dt - 1\<rparr>)" by (simp add: prev_day_def)
    have "valid_datetime (dt\<lparr>day := day dt - 1\<rparr>)"
      using assms(1) day unfolding valid_datetime_def by simp linarith
    with p show ?thesis by simp
  next
    case month
    let ?p = "dt\<lparr>month := month dt - 1, day := days_in_month (year dt) (month dt - 1)\<rparr>"
    from month have p: "prev_day dt = Some ?p" by (simp add: prev_day_def)
    have "valid_datetime ?p"
      using assms(1) month(2) days_in_month_pos [of "year dt" "month dt - 1"]
      unfolding valid_datetime_def by simp linarith
    with p show ?thesis by simp
  next
    case year
    let ?p = "dt\<lparr>year := year dt - 1, month := 12, day := 31\<rparr>"
    from year assms(2) have p: "prev_day dt = Some ?p" by (simp add: prev_day_def)
    have "days_in_month (year dt - 1) 12 = 31" by (simp add: days_in_month_def)
    then have "valid_datetime ?p"
      using assms unfolding valid_datetime_def by simp linarith
    with p show ?thesis by simp
  qed
qed

lemma minus_days_valid:
  "valid_datetime dt \<Longrightarrow> k < year dt \<Longrightarrow>
   \<exists>d. minus_days dt k = Inr d \<and> valid_datetime d \<and> year dt \<le> year d + k \<and> year d \<le> year dt \<and>
       hour d = hour dt \<and> minute d = minute dt \<and> second d = second dt \<and>
       microsecond d = microsecond dt"
proof (induction k arbitrary: dt)
  case 0
  then show ?case by simp
next
  case (Suc k)
  then have "1 < year dt" by simp
  from prev_day_valid [OF Suc.prems(1) this] obtain p where p:
    "prev_day dt = Some p" "valid_datetime p" "year dt \<le> Suc (year p)" "year p \<le> year dt"
    "hour p = hour dt" "minute p = minute dt" "second p = second dt" "microsecond p = microsecond dt"
    by blast
  have "k < year p" using Suc.prems(2) p(3) by simp
  from Suc.IH [OF p(2) this] obtain d where d:
    "minus_days p k = Inr d" "valid_datetime d" "year p \<le> year d + k" "year d \<le> year p"
    "hour d = hour p" "minute d = minute p" "second d = second p" "microsecond d = microsecond p"
    by blast
  show ?case using p d by simp
qed

lemma weekday_less: "weekday dt < 7"
  by (simp add: weekday_def)

lemma window_starts_clock:
  assumes "clock_time now"
  shows "\<exists>sw. minus_days now (weekday now) = Inr sw \<and> valid_datetime sw \<and>
     window_starts now =
       Inr [(''Today'', now\<lparr>hour := 0, minute := 0, second := 0, microsecond := 0\<rparr>),
            (''This Week'', sw),
            (''This Month'', now\<lparr>day := 1\<rparr>),
            (''All Time'', datetime_ymd 2000 1 1)]"
proof -
  from assms have v: "valid_datetime now" and "weekday now < year now"
    using weekday_less [of now] by (simp_all add: clock_time_def)
  from minus_days_valid [OF this] obtain sw where
    "minus_days now (weekday now) = Inr sw" "valid_datetime sw" by blast
  then show ?thesis by (simp add: window_starts_def)
qed

lemma valid_start_of_day:
  "valid_datetime now \<Longrightarrow> valid_datetime (now\<lparr>hour := 0, minute := 0, second := 0, microsecond := 0\<rparr>)"
  by (simp add: valid_datetime_def)

lemma valid_start_of_month: "valid_datetime now \<Longrightarrow> valid_datetime (now\<lparr>day := 1\<rparr>)"
  by (simp add: valid_datetime_def days_in_month_def)

lemma valid_epoch: "valid_datetime (datetime_ymd 2000 1 1)"
  by (simp add: valid_datetime_def datetime_ymd_def days_in_month_def)

lemma window_starts_valid:
  assumes "clock_time now"
  shows "\<exists>ws. window_starts now = Inr ws \<and>
     map fst ws = [''Today'', ''This Week'', ''This Month'', ''All Time''] \<and>
     (\<forall>(period, start) \<in> set ws. valid_datetime start)"
proof -
  from window_starts_clock [OF assms] obtain sw where sw:
    "valid_datetime sw"
    "window_starts now =
       Inr [(''Today'', now\<lparr>hour := 0, minute := 0, second := 0, microsecond := 0\<rparr>),
            (''This Week'', sw),
            (''This Month'', now\<lparr>day := 1\<rparr>),
            (''All Time'', datetime_ymd 2000 1 1)]" by blast
  have "valid_datetime now" using assms by (simp add: clock_time_def)
  then show ?thesis
    using sw valid_start_of_day [of now] valid_start_of_month [of now] valid_epoch by simp
qed

lemma list_all2_map_right: "(\<forall>x \<in> set xs. P x (f x)) \<Longrightarrow> list_all2 P xs (map f xs)"
  by (induction xs) auto

subsection \<open>The metrics of the four windows\<close>

text \<open>
  The aggregation, whatever the starts are: the total of an entry is the number of
  distinct ids of the resume records created at or after the \<^verbatim>\<open>start_date\<close> that
  \<^verbatim>\<open>window_starts\<close> gives its window, and its high-scoring count is the number of distinct
  ids of those records that have an analysis with \<^verbatim>\<open>ats_score >= 70\<close>.
\<close>

lemma counts_for_start_dates:
  assumes "valid_database db" "clock_time now"
  shows "\<exists>ws ms. window_starts now = Inr ws \<and> get_resume_metrics db now = Inr ms \<and>
      map fst ws = [''Today'', ''This Week'', ''This Month'', ''All Time''] \<and>
      list_all2 (\<lambda>(period, start) (key, m). key = period \<and>
          m_total m = int (card (rd_id ` in_window db start)) \<and>
          m_high_scoring m =
            int (card (rd_id ` {rd \<in> in_window db start. high_scoring_resume db rd}))) ws ms"
proof -
  from window_starts_valid [OF assms(2)] obtain ws where ws:
    "window_starts now = Inr ws"
    "map fst ws = [''Today'', ''This Week'', ''This Month'', ''All Time'']"
    "\<forall>(period, start) \<in> set ws. valid_datetime start" by (elim exE conjE)
  let ?f = "\<lambda>(period, start_date).
              (period, metric_of_row (metrics_query db (strftime_datetime start_date)))"
  have ms: "get_resume_metrics db now = Inr (map ?f ws)"
    using ws(1) by (simp add: get_resume_metrics_def)
  have la: "list_all2 (\<lambda>(period, start) (key, m). key = period \<and>
          m_total m = int (card (rd_id ` in_window db start)) \<and>
          m_high_scoring m =
            int (card (rd_id ` {rd \<in> in_window db start. high_scoring_resume db rd}))) ws (map ?f ws)"
  proof (rule list_all2_map_right, rule ballI)
    fix x assume x: "x \<in> set ws"
    obtain period start where [simp]: "x = (period, start)" by (cases x)
    have "valid_datetime start" using ws(3) x by auto
    then show "(case x of (period, start) \<Rightarrow> \<lambda>(key, m). key = period \<and>
          m_total m = int (card (rd_id ` in_window db start)) \<and>
          m_high_scoring m =
            int (card (rd_id ` {rd \<in> in_window db start. high_scoring_resume db rd}))) (?f x)"
      using metrics_query_counts [OF assms(1)] by simp
  qed
  show ?thesis
    by (intro exI [of _ ws] exI [of _ "map ?f ws"] conjI ws(1) ms ws(2) la)
qed

subsection \<open>High-scoring resumes are resumes of the window\<close>

lemma finite_somes: "finite {x. Some x \<in> set vs}"
  using finite_set [of "List.map_filter (\<lambda>v. v) vs"] by (simp only: set_map_filter_id)

lemma high_le_total_rows:
  "count_distinct (map high_case rows) \<le> count_distinct (map (\<lambda>(rd, ra). Some (rd_id rd)) rows)"
proof -
  have "{x. Some x \<in> set (map high_case rows)} \<subseteq>
        {x. Some x \<in> set (map (\<lambda>(rd, ra). Some (rd_id rd)) rows)}"
  proof
    fix x assume "x \<in> {x. Some x \<in> set (map high_case rows)}"
    then obtain row where row: "row \<in> set rows" "high_case row = Some x" by auto
    obtain rd ra where [simp]: "row = (rd, ra)" by (cases row)
    from row(2) have "x = rd_id rd"
      by (simp add: high_case_def split: option.splits if_splits)
    then have "Some x = (\<lambda>(rd, ra). Some (rd_id rd)) row" by simp
    with row(1) show "x \<in> {x. Some x \<in> set (map (\<lambda>(rd, ra). Some (rd_id rd)) rows)}"
      unfolding set_map by blast
  qed
  then have "card {x. Some x \<in> set (map high_case rows)} \<le>
        card {x. Some x \<in> set (map (\<lambda>(rd, ra). Some (rd_id rd)) rows)}"
    by (rule card_mono [OF finite_somes])
  then show ?thesis by (simp only: count_distinct_card of_nat_le_iff)
qed

lemma metrics_query_high_le_total:
  "m_high_scoring (metric_of_row (metrics_query db param)) \<le>
   m_total (metric_of_row (metrics_query db param))"
  using high_le_total_rows [of "where_created_at_ge param (left_join db)"]
  by (simp add: metrics_query_def metric_of_row_def Let_def int_or_0_def)

lemma window_starts_some:
  assumes "clock_time now"
  shows "\<exists>ws. window_starts now = Inr ws \<and>
     map fst ws = [''Today'', ''This Week'', ''This Month'', ''All Time'']"
proof -
  from window_starts_valid [OF assms] obtain ws where ws:
    "window_starts now = Inr ws"
    "map fst ws = [''Today'', ''This Week'', ''This Month'', ''All Time'']"
    by (elim exE conjE)
  show ?thesis by (intro exI [of _ ws] conjI ws)
qed

text \<open>
  C9. At every time the clock can show and on every database, \<^verbatim>\<open>get_resume_metrics\<close>
  returns the four entries, and in each of them the high-scoring count is at most the
  total.
\<close>

theorem high_scoring_le_total:
  assumes "clock_time now"
  shows "\<exists>ms. get_resume_metrics db now = Inr ms \<and>
     map fst ms = [''Today'', ''This Week'', ''This Month'', ''All Time''] \<and>
     list_all (\<lambda>(period, m). m_high_scoring m \<le> m_total m) ms"
proof -
  from window_starts_some [OF assms] obtain ws where ws:
    "window_starts now = Inr ws"
    "map fst ws = [''Today'', ''This Week'', ''This Month'', ''All Time'']" by (elim exE conjE)
  let ?f = "\<lambda>(period, start_date).
              (period, metric_of_row (metrics_query db (strftime_datetime start_date)))"
  have ms: "get_resume_metrics db now = Inr (map ?f ws)"
    using ws(1) by (simp add: get_resume_metrics_def)
  have "map fst (map ?f ws) = map fst ws"
    by (simp add: case_prod_beta)
  then have keys: "map fst (map ?f ws) = [''Today'', ''This Week'', ''This Month'', ''All Time'']"
    by (simp only: ws(2))
  have le: "list_all (\<lambda>(period, m). m_high_scoring m \<le> m_total m) (map ?f ws)"
    unfolding list_all_iff using metrics_query_high_le_total by (simp add: case_prod_beta)
  show ?thesis
    by (intro exI [of _ "map ?f ws"] conjI ms keys le)
qed

theorem high_scoring_le_total_witness:
  "clock_time example_now \<and>
   (\<exists>ms. get_resume_metrics example_db example_now = Inr ms \<and>
     map fst ms = [''Today'', ''This Week'', ''This Month'', ''All Time''] \<and>
     list_all (\<lambda>(period, m). m_high_scoring m \<le> m_total m) ms)"
proof -
  have now: "clock_time example_now"
    by (simp add: clock_time_def example_now_def valid_datetime_def days_in_month_def)
  show ?thesis
    using now high_scoring_le_total [OF now] by (intro conjI)
qed

subsection \<open>Windows without data, and the range of the averages\<close>

lemma sum_list_bounds:
  fixes xs :: "rat list"
  assumes "\<forall>x \<in> set xs. 0 \<le> x \<and> x \<le> c"
  shows "0 \<le> sum_list xs \<and> sum_list xs \<le> c * of_nat (length xs)"
  using assms by (induction xs) (auto simp: algebra_simps)

lemma sql_avg_bounds:
  assumes "sql_avg vs = Some a" "\<forall>x. Some x \<in> set vs \<longrightarrow> 0 \<le> x \<and> x \<le> 100"
  shows "0 \<le> a \<and> a \<le> 100"
proof -
  let ?xs = "List.map_filter (\<lambda>v. v) vs"
  from assms(1) have ne: "?xs \<noteq> []" and a: "a = sum_list ?xs / of_nat (length ?xs)"
    by (auto simp: sql_avg_def Let_def split: if_splits)
  have "\<forall>x \<in> set ?xs. 0 \<le> x \<and> x \<le> 100"
    using assms(2) by (simp add: set_map_filter_id)
  from sum_list_bounds [OF this]
  have s: "0 \<le> sum_list ?xs" "sum_list ?xs \<le> 100 * of_nat (length ?xs)" by simp_all
  have pos: "(0::rat) < of_nat (length ?xs)" using ne by simp
  show ?thesis
    unfolding a using s pos by (simp add: divide_le_eq)
qed

lemma round1_bounds:
  assumes "0 \<le> x" "x \<le> 100"
  shows "0 \<le> round1 x \<and> round1 x \<le> 100"
proof -
  have "0 \<le> x * 10 + 1 / 2" using assms(1) by simp
  then have lo: "0 \<le> \<lfloor>x * 10 + 1 / 2\<rfloor>" by simp
  have "x * 10 + 1 / 2 < 1001" using assms(2) by simp
  then have "\<lfloor>x * 10 + 1 / 2\<rfloor> < 1001" by (simp add: floor_less_iff)
  then have hi: "\<lfloor>x * 10 + 1 / 2\<rfloor> \<le> 1000" by simp
  have "(of_int \<lfloor>x * 10 + 1 / 2\<rfloor> :: rat) \<le> of_int 1000" using hi by (simp only: of_int_le_iff)
  then have "(of_int \<lfloor>x * 10 + 1 / 2\<rfloor> :: rat) / 10 \<le> 100" by simp
  moreover have "0 \<le> (of_int \<lfloor>x * 10 + 1 / 2\<rfloor> :: rat) / 10" using lo by simp
  ultimately show ?thesis using assms(1) by (simp add: round1_def)
qed

lemma average_field_bounds:
  assumes "\<forall>x. Some x \<in> set vs \<longrightarrow> 0 \<le> x \<and> x \<le> 100"
  shows "0 \<le> rat_or_0 (sql_round1 (sql_avg vs)) \<and> rat_or_0 (sql_round1 (sql_avg vs)) \<le> 100"
proof (cases "sql_avg vs")
  case None
  then show ?thesis by (simp add: sql_round1_def rat_or_0_def)
next
  case (Some a)
  from sql_avg_bounds [OF this assms] have "0 \<le> round1 a \<and> round1 a \<le> 100"
    by (simp add: round1_bounds)
  then show ?thesis using Some by (simp add: sql_round1_def rat_or_0_def)
qed

lemma joined_scores:
  assumes "Some x \<in> set (map (\<lambda>(rd, ra). map_option f ra) (where_created_at_ge param (left_join db)))"
  shows "\<exists>a \<in> set (resume_analysis db). x = f a"
proof -
  from assms obtain row where r: "row \<in> set (where_created_at_ge param (left_join db))"
    "Some x = (\<lambda>(rd, ra). map_option f ra) row" unfolding set_map by blast
  obtain rd ra where [simp]: "row = (rd, ra)" by (cases row)
  from r have row: "(rd, ra) \<in> set (left_join db)" and x: "map_option f ra = Some x"
    by (simp_all add: where_created_at_ge_def)
  from x obtain a where "ra = Some a" "x = f a" by (cases ra) auto
  with row show ?thesis by (auto simp: in_left_join)
qed

lemma metrics_query_bounds:
  assumes "scores_in_range db"
  shows "0 \<le> m_ats_score (metric_of_row (metrics_query db param)) \<and>
         m_ats_score (metric_of_row (metrics_query db param)) \<le> 100 \<and>
         0 \<le> m_keyword_score (metric_of_row (metrics_query db param)) \<and>
         m_keyword_score (metric_of_row (metrics_query db param)) \<le> 100"
proof -
  let ?rows = "where_created_at_ge param (left_join db)"
  have a: "\<forall>x. Some x \<in> set (map (\<lambda>(rd, ra). map_option ats_score ra) ?rows) \<longrightarrow> 0 \<le> x \<and> x \<le> 100"
    using joined_scores [of _ ats_score param db] assms by (fastforce simp: scores_in_range_def)
  have k: "\<forall>x. Some x \<in> set (map (\<lambda>(rd, ra). map_option keyword_match_score ra) ?rows) \<longrightarrow> 0 \<le> x \<and> x \<le> 100"
    using joined_scores [of _ keyword_match_score param db] assms by (fastforce simp: scores_in_range_def)
  show ?thesis
    using average_field_bounds [OF a] average_field_bounds [OF k]
    by (simp add: metrics_query_def metric_of_row_def Let_def)
qed

lemma metrics_query_empty:
  assumes "valid_database db" "valid_datetime start" "in_window db start = {}"
  shows "metric_of_row (metrics_query db (strftime_datetime start)) = zero_metric"
proof -
  have none: "row \<notin> set (where_created_at_ge (strftime_datetime start) (left_join db))" for row
  proof
    assume r: "row \<in> set (where_created_at_ge (strftime_datetime start) (left_join db))"
    obtain rd ra where [simp]: "row = (rd, ra)" by (cases row)
    from r have "rd \<in> in_window db start"
      by (simp add: in_where [OF assms(1,2)] in_window_def in_left_join)
    with assms(3) show False by simp
  qed
  have "where_created_at_ge (strftime_datetime start) (left_join db) = []"
  proof (cases "where_created_at_ge (strftime_datetime start) (left_join db)")
    case Nil
    then show ?thesis .
  next
    case (Cons r rs)
    then have "r \<in> set (where_created_at_ge (strftime_datetime start) (left_join db))" by simp
    with none show ?thesis by blast
  qed
  then show ?thesis
    by (simp add: metrics_query_def metric_of_row_def count_distinct_def sql_avg_def
        sql_round1_def rat_or_0_def int_or_0_def zero_metric_def List.map_filter_def)
qed

lemma list_all2_right:
  "list_all2 P xs ys \<Longrightarrow> (\<And>x y. P x y \<Longrightarrow> Q y) \<Longrightarrow> list_all Q ys"
  by (induction rule: list_all2_induct) auto

text \<open>
  C8. At every time the clock can show and on every database, \<^verbatim>\<open>get_resume_metrics\<close>
  raises nothing: it returns an entry for each of the four windows. In a window without
  qualifying rows all four fields of the entry are 0. When all stored scores lie in
  [0, 100], both averages of every entry lie in [0, 100].
\<close>

theorem resume_metrics_zero_or_bounded:
  assumes "clock_time now"
  shows "\<exists>ws ms. window_starts now = Inr ws \<and> get_resume_metrics db now = Inr ms \<and>
      map fst ws = [''Today'', ''This Week'', ''This Month'', ''All Time''] \<and>
      list_all2 (\<lambda>(period, start) (key, m). key = period \<and>
          (valid_database db \<and> in_window db start = {} \<longrightarrow> m = zero_metric) \<and>
          (scores_in_range db \<longrightarrow>
             0 \<le> m_ats_score m \<and> m_ats_score m \<le> 100 \<and>
             0 \<le> m_keyword_score m \<and> m_keyword_score m \<le> 100)) ws ms"
proof -
  from window_starts_valid [OF assms] obtain ws where ws:
    "window_starts now = Inr ws"
    "map fst ws = [''Today'', ''This Week'', ''This Month'', ''All Time'']"
    "\<forall>(period, start) \<in> set ws. valid_datetime start" by (elim exE conjE)
  let ?f = "\<lambda>(period, start_date).
              (period, metric_of_row (metrics_query db (strftime_datetime start_date)))"
  have ms: "get_resume_metrics db now = Inr (map ?f ws)"
    using ws(1) by (simp add: get_resume_metrics_def)
  have la: "list_all2 (\<lambda>(period, start) (key, m). key = period \<and>
          (valid_database db \<and> in_window db start = {} \<longrightarrow> m = zero_metric) \<and>
          (scores_in_range db \<longrightarrow>
             0 \<le> m_ats_score m \<and> m_ats_score m \<le> 100 \<and>
             0 \<le> m_keyword_score m \<and> m_keyword_score m \<le> 100)) ws (map ?f ws)"
  proof (rule list_all2_map_right, rule ballI)
    fix x assume x: "x \<in> set ws"
    obtain period start where [simp]: "x = (period, start)" by (cases x)
    have v: "valid_datetime start" using ws(3) x by auto
    show "(case x of (period, start) \<Rightarrow> \<lambda>(key, m). key = period \<and>
          (valid_database db \<and> in_window db start = {} \<longrightarrow> m = zero_metric) \<and>
          (scores_in_range db \<longrightarrow>
             0 \<le> m_ats_score m \<and> m_ats_score m \<le> 100 \<and>
             0 \<le> m_keyword_score m \<and> m_keyword_score m \<le> 100)) (?f x)"
      using metrics_query_empty [OF _ v] metrics_query_bounds [of db "strftime_datetime start"]
      by simp
  qed
  show ?thesis
    by (intro exI [of _ ws] exI [of _ "map ?f ws"] conjI ws(1) ms ws(2) la)
qed

theorem resume_metrics_zero_or_bounded_witness:
  "clock_time example_now \<and> valid_database empty_db \<and> scores_in_range example_db \<and>
   (\<exists>ms. get_resume_metrics empty_db example_now = Inr ms \<and> length ms = 4 \<and>
      list_all (\<lambda>(key, m). m = zero_metric) ms) \<and>
   (\<exists>ms. get_resume_metrics example_db example_now = Inr ms \<and> length ms = 4 \<and>
      list_all (\<lambda>(key, m). 0 \<le> m_ats_score m \<and> m_ats_score m \<le> 100 \<and>
                            0 \<le> m_keyword_score m \<and> m_keyword_score m \<le> 100) ms)"
proof -
  have now: "clock_time example_now"
    by (simp add: clock_time_def example_now_def valid_datetime_def days_in_month_def)
  have v: "valid_database empty_db" by (simp add: valid_database_def empty_db_def)
  have e: "in_window empty_db start = {}" for start by (simp add: in_window_def empty_db_def)
  have r: "scores_in_range example_db" by (simp add: scores_in_range_def example_db_def)
  from resume_metrics_zero_or_bounded [OF now, of empty_db] obtain ws ms where a:
    "get_resume_metrics empty_db example_now = Inr ms"
    "map fst ws = [''Today'', ''This Week'', ''This Month'', ''All Time'']"
    "list_all2 (\<lambda>(period, start) (key, m). key = period \<and>
          (valid_database empty_db \<and> in_window empty_db start = {} \<longrightarrow> m = zero_metric) \<and>
          (scores_in_range empty_db \<longrightarrow>
             0 \<le> m_ats_score m \<and> m_ats_score m \<le> 100 \<and>
             0 \<le> m_keyword_score m \<and> m_keyword_score m \<le> 100)) ws ms"
    by (elim exE conjE)
  have "length ws = 4" using arg_cong [OF a(2), of length] by simp
  then have a4: "length ms = 4" using list_all2_lengthD [OF a(3)] by simp
  have az: "list_all (\<lambda>(key, m). m = zero_metric) ms"
    by (rule list_all2_right [OF a(3)]) (simp add: v e split: prod.splits)
  from resume_metrics_zero_or_bounded [OF now, of example_db] obtain ws' ms' where b:
    "get_resume_metrics example_db example_now = Inr ms'"
    "map fst ws' = [''Today'', ''This Week'', ''This Month'', ''All Time'']"
    "list_all2 (\<lambda>(period, start) (key, m). key = period \<and>
          (valid_database example_db \<and> in_window example_db start = {} \<longrightarrow> m = zero_metric) \<and>
          (scores_in_range example_db \<longrightarrow>
             0 \<le> m_ats_score m \<and> m_ats_score m \<le> 100 \<and>
             0 \<le> m_keyword_score m \<and> m_keyword_score m \<le> 100)) ws' ms'"
    by (elim exE conjE)
  have "length ws' = 4" using arg_cong [OF b(2), of length] by simp
  then have b4: "length ms' = 4" using list_all2_lengthD [OF b(3)] by simp
  have bz: "list_all (\<lambda>(key, m). 0 \<le> m_ats_score m \<and> m_ats_score m \<le> 100 \<and>
                            0 \<le> m_keyword_score m \<and> m_keyword_score m \<le> 100) ms'"
    by (rule list_all2_right [OF b(3)]) (simp add: r split: prod.splits)
  show ?thesis
    by (intro conjI now v r exI [of _ ms] exI [of _ ms'] a(1) a4 az b(1) b4 bz)
qed

subsection \<open>The example time and the example databases\<close>

lemma weekday_example_now: "weekday example_now = 2"
  by (simp add: weekday_def toordinal_def days_before_year_def days_before_month_def example_now_def)

lemma minus_days_2: "minus_days dt 2 = (case prev_day dt of None \<Rightarrow> Inl OverflowError | Some p \<Rightarrow>
     (case prev_day p of None \<Rightarrow> Inl OverflowError | Some q \<Rightarrow> Inr q))"
  by (simp add: numeral_2_eq_2 split: option.splits)

lemma window_starts_example_now: "window_starts example_now =
     Inr [(''Today'', \<lparr>year = 2024, month = 1, day = 3, hour = 0, minute = 0, second = 0, microsecond = 0\<rparr>),
          (''This Week'', \<lparr>year = 2024, month = 1, day = 1, hour = 15, minute = 30, second = 45, microsecond = 0\<rparr>),
          (''This Month'', \<lparr>year = 2024, month = 1, day = 1, hour = 15, minute = 30, second = 45, microsecond = 0\<rparr>),
          (''All Time'', \<lparr>year = 2000, month = 1, day = 1, hour = 0, minute = 0, second = 0, microsecond = 0\<rparr>)]"
  by (simp add: window_starts_def weekday_example_now minus_days_2 prev_day_def datetime_ymd_def) (simp add: example_now_def)

lemmas strftime_eval = strftime_datetime_def strftime_date_def pad4_def pad2_def digit_def stored_text_def

lemma floor_rat_numeral: "\<lfloor>(numeral a :: rat) / numeral b\<rfloor> = numeral a div numeral b"
  using floor_divide_of_int_eq [of "numeral a" "numeral b", where ?'a = rat] by simp

lemma metrics_query_example_all_time: "metrics_query example_db ''2000-01-01 00:00:00'' = (2, Some 70, Some 50, 1)"
  by (simp add: metrics_query_def example_db_def left_join_def where_created_at_ge_def strftime_eval
     count_distinct_def sql_avg_def sql_round1_def List.map_filter_def high_case_def round1_def floor_rat_numeral)

lemma metrics_query_example_week: "metrics_query example_db ''2024-01-01 15:30:45'' = (1, Some 85, Some 60, 1)"
  by (simp add: metrics_query_def example_db_def left_join_def where_created_at_ge_def strftime_eval
     count_distinct_def sql_avg_def sql_round1_def List.map_filter_def high_case_def round1_def floor_rat_numeral)

lemma get_resume_metrics_example_now:
  "get_resume_metrics db example_now =
     Inr [(''Today'', metric_of_row (metrics_query db ''2024-01-03 00:00:00'')),
          (''This Week'', metric_of_row (metrics_query db ''2024-01-01 15:30:45'')),
          (''This Month'', metric_of_row (metrics_query db ''2024-01-01 15:30:45'')),
          (''All Time'', metric_of_row (metrics_query db ''2000-01-01 00:00:00''))]"
  by (simp add: get_resume_metrics_def window_starts_example_now strftime_eval)

subsection \<open>The All Time window\<close>

text \<open>
  The All Time window starts at 2000-01-01: a resume created in 1999 is stored and is not
  counted.
\<close>

theorem all_time_skips_old_records:
  "get_resume_metrics old_db example_now =
     Inr [(''Today'', zero_metric), (''This Week'', zero_metric),
          (''This Month'', zero_metric), (''All Time'', zero_metric)] \<and>
   length (resume_data old_db) = 1"
proof -
  have today: "metrics_query old_db ''2024-01-03 00:00:00'' = (0, None, None, 0)"
    by (simp add: metrics_query_def old_db_def left_join_def where_created_at_ge_def strftime_eval
     count_distinct_def sql_avg_def sql_round1_def List.map_filter_def high_case_def)
  have week: "metrics_query old_db ''2024-01-01 15:30:45'' = (0, None, None, 0)"
    by (simp add: metrics_query_def old_db_def left_join_def where_created_at_ge_def strftime_eval
     count_distinct_def sql_avg_def sql_round1_def List.map_filter_def high_case_def)
  have all_time: "metrics_query old_db ''2000-01-01 00:00:00'' = (0, None, None, 0)"
    by (simp add: metrics_query_def old_db_def left_join_def where_created_at_ge_def strftime_eval
     count_distinct_def sql_avg_def sql_round1_def List.map_filter_def high_case_def)
  have "length (resume_data old_db) = 1" by (simp add: old_db_def)
  then show ?thesis
    by (simp add: get_resume_metrics_example_now today week all_time metric_of_row_def
        zero_metric_def int_or_0_def rat_or_0_def)
qed

lemma in_window_filter:
  "in_window db start = set (filter (\<lambda>rd. at_or_after (created_at rd) start) (resume_data db))"
  by (auto simp: in_window_def)

lemma card_ids_distinct:
  assumes "distinct (map rd_id (resume_data db))"
  shows "card (rd_id ` in_window db start) =
         length (filter (\<lambda>rd. at_or_after (created_at rd) start) (resume_data db))"
proof -
  let ?rows = "filter (\<lambda>rd. at_or_after (created_at rd) start) (resume_data db)"
  have "distinct (map rd_id ?rows)" using assms by (rule distinct_map_filter)
  then have "card (set (map rd_id ?rows)) = length (map rd_id ?rows)" by (rule distinct_card)
  then show ?thesis by (simp add: in_window_filter)
qed

text \<open>
  C3, amended. At every time the clock can show, the total of the All Time entry is
  the number of distinct ids of the resume rows created at or after 2000-01-01 00:00:00,
  which is the number of these rows when the ids of the table are distinct. Rows created
  before that day are not counted.
\<close>

theorem all_time_total:
  assumes "valid_database db" "clock_time now"
  shows "\<exists>ms m. get_resume_metrics db now = Inr ms \<and> map_of ms ''All Time'' = Some m \<and>
     m_total m = int (card (rd_id ` in_window db (datetime_ymd 2000 1 1))) \<and>
     (distinct (map rd_id (resume_data db)) \<longrightarrow>
        m_total m = int (length (filter (\<lambda>rd. at_or_after (created_at rd) (datetime_ymd 2000 1 1))
                                   (resume_data db))))"
proof -
  from window_starts_clock [OF assms(2)] obtain sw where ws:
    "window_starts now =
       Inr [(''Today'', now\<lparr>hour := 0, minute := 0, second := 0, microsecond := 0\<rparr>),
            (''This Week'', sw),
            (''This Month'', now\<lparr>day := 1\<rparr>),
            (''All Time'', datetime_ymd 2000 1 1)]" by (elim exE conjE)
  let ?m = "metric_of_row (metrics_query db (strftime_datetime (datetime_ymd 2000 1 1)))"
  let ?ms = "[(''Today'', metric_of_row (metrics_query db (strftime_datetime
                 (now\<lparr>hour := 0, minute := 0, second := 0, microsecond := 0\<rparr>)))),
              (''This Week'', metric_of_row (metrics_query db (strftime_datetime sw))),
              (''This Month'', metric_of_row (metrics_query db (strftime_datetime (now\<lparr>day := 1\<rparr>)))),
              (''All Time'', ?m)]"
  have ms: "get_resume_metrics db now = Inr ?ms"
    by (simp add: get_resume_metrics_def ws)
  have look: "map_of ?ms ''All Time'' = Some ?m" by simp
  have total: "m_total ?m = int (card (rd_id ` in_window db (datetime_ymd 2000 1 1)))"
    by (rule metrics_query_counts(1) [OF assms(1) valid_epoch])
  have rows: "distinct (map rd_id (resume_data db)) \<longrightarrow>
        m_total ?m = int (length (filter (\<lambda>rd. at_or_after (created_at rd) (datetime_ymd 2000 1 1))
                                   (resume_data db)))"
    using total card_ids_distinct [of db "datetime_ymd 2000 1 1"] by simp
  show ?thesis
    by (intro exI [of _ ?ms] exI [of _ ?m] conjI ms look total rows)
qed

theorem all_time_total_witness:
  "valid_database example_db \<and> clock_time example_now \<and>
   distinct (map rd_id (resume_data example_db)) \<and>
   (\<exists>ms m. get_resume_metrics example_db example_now = Inr ms \<and>
      map_of ms ''All Time'' = Some m \<and> m_total m = 2)"
proof -
  have db: "valid_database example_db"
    by (simp add: valid_database_def example_db_def valid_datetime_def days_in_month_def)
  have now: "clock_time example_now"
    by (simp add: clock_time_def example_now_def valid_datetime_def days_in_month_def)
  have ids: "distinct (map rd_id (resume_data example_db))" by (simp add: example_db_def)
  have two: "length (filter (\<lambda>rd. at_or_after (created_at rd) (datetime_ymd 2000 1 1))
               (resume_data example_db)) = 2"
    by (simp add: example_db_def at_or_after_def fields_def datetime_ymd_def)
  from all_time_total [OF db now] obtain ms m where
    "get_resume_metrics example_db example_now = Inr ms" "map_of ms ''All Time'' = Some m"
    "distinct (map rd_id (resume_data example_db)) \<longrightarrow>
        m_total m = int (length (filter (\<lambda>rd. at_or_after (created_at rd) (datetime_ymd 2000 1 1))
                                   (resume_data example_db)))"
    by (elim exE conjE)
  then have "get_resume_metrics example_db example_now = Inr ms \<and>
      map_of ms ''All Time'' = Some m \<and> m_total m = 2"
    using ids two by simp
  then have "\<exists>ms m. get_resume_metrics example_db example_now = Inr ms \<and>
      map_of ms ''All Time'' = Some m \<and> m_total m = 2" by (intro exI)
  with db now ids show ?thesis by (intro conjI)
qed

subsection \<open>The starts of the week and of the month\<close>

text \<open>
  C4. On Wednesday 2024-01-03 at 15:30:45 the Today window starts at midnight, while
  the This Week window starts on Monday 2024-01-01 at 15:30:45 and the This Month window on
  2024-01-01 at 15:30:45: both keep the time of day of the reference time. A resume
  created on that Monday at 09:00 is one of the two created since Monday midnight, and
  the This Week entry counts one.
\<close>

theorem week_and_month_start_keep_time_of_day:
  "window_starts example_now =
     Inr [(''Today'', \<lparr>year = 2024, month = 1, day = 3, hour = 0, minute = 0, second = 0,
                       microsecond = 0\<rparr>),
          (''This Week'', \<lparr>year = 2024, month = 1, day = 1, hour = 15, minute = 30, second = 45,
                           microsecond = 0\<rparr>),
          (''This Month'', \<lparr>year = 2024, month = 1, day = 1, hour = 15, minute = 30, second = 45,
                            microsecond = 0\<rparr>),
          (''All Time'', \<lparr>year = 2000, month = 1, day = 1, hour = 0, minute = 0, second = 0,
                          microsecond = 0\<rparr>)] \<and>
   get_resume_metrics example_db example_now =
     Inr [(''Today'', \<lparr>m_total = 1, m_ats_score = 85, m_keyword_score = 60, m_high_scoring = 1\<rparr>),
          (''This Week'', \<lparr>m_total = 1, m_ats_score = 85, m_keyword_score = 60, m_high_scoring = 1\<rparr>),
          (''This Month'', \<lparr>m_total = 1, m_ats_score = 85, m_keyword_score = 60, m_high_scoring = 1\<rparr>),
          (''All Time'', \<lparr>m_total = 2, m_ats_score = 70, m_keyword_score = 50, m_high_scoring = 1\<rparr>)] \<and>
   length (filter (\<lambda>rd. at_or_after (created_at rd) (datetime_ymd 2024 1 1))
             (resume_data example_db)) = 2"
proof -
  have today: "metrics_query example_db ''2024-01-03 00:00:00'' = (1, Some 85, Some 60, 1)"
    by (simp add: metrics_query_def example_db_def left_join_def where_created_at_ge_def strftime_eval
     count_distinct_def sql_avg_def sql_round1_def List.map_filter_def high_case_def round1_def floor_rat_numeral)
  have m: "get_resume_metrics example_db example_now =
     Inr [(''Today'', \<lparr>m_total = 1, m_ats_score = 85, m_keyword_score = 60, m_high_scoring = 1\<rparr>),
          (''This Week'', \<lparr>m_total = 1, m_ats_score = 85, m_keyword_score = 60, m_high_scoring = 1\<rparr>),
          (''This Month'', \<lparr>m_total = 1, m_ats_score = 85, m_keyword_score = 60, m_high_scoring = 1\<rparr>),
          (''All Time'', \<lparr>m_total = 2, m_ats_score = 70, m_keyword_score = 50, m_high_scoring = 1\<rparr>)]"
    by (simp add: get_resume_metrics_example_now today metrics_query_example_all_time metrics_query_example_week metric_of_row_def int_or_0_def rat_or_0_def)
  have two: "length (filter (\<lambda>rd. at_or_after (created_at rd) (datetime_ymd 2024 1 1))
             (resume_data example_db)) = 2"
    by (simp add: example_db_def at_or_after_def fields_def datetime_ymd_def)
  show ?thesis by (intro conjI window_starts_example_now m two)
qed

subsection \<open>The counts of This Week and This Month\<close>

lemma get_resume_metrics_example:
  "get_resume_metrics example_db example_now =
     Inr [(''Today'', \<lparr>m_total = 1, m_ats_score = 85, m_keyword_score = 60, m_high_scoring = 1\<rparr>),
          (''This Week'', \<lparr>m_total = 1, m_ats_score = 85, m_keyword_score = 60, m_high_scoring = 1\<rparr>),
          (''This Month'', \<lparr>m_total = 1, m_ats_score = 85, m_keyword_score = 60, m_high_scoring = 1\<rparr>),
          (''All Time'', \<lparr>m_total = 2, m_ats_score = 70, m_keyword_score = 50, m_high_scoring = 1\<rparr>)]"
proof -
  have today: "metrics_query example_db ''2024-01-03 00:00:00'' = (1, Some 85, Some 60, 1)"
    by (simp add: metrics_query_def example_db_def left_join_def where_created_at_ge_def
        strftime_eval count_distinct_def sql_avg_def sql_round1_def List.map_filter_def
        high_case_def round1_def floor_rat_numeral)
  show ?thesis
    by (simp add: get_resume_metrics_example_now today metrics_query_example_all_time
        metrics_query_example_week metric_of_row_def int_or_0_def rat_or_0_def)
qed

lemma monday_of_example_week: "weekday (datetime_ymd 2024 1 1) = 0"
  by (simp add: weekday_def toordinal_def days_before_year_def days_before_month_def
      datetime_ymd_def)

text \<open>
  C1. On Wednesday 2024-01-03 at 15:30:45, with resumes created that day at 09:00, on
  Monday 2024-01-01 at 09:00 and in 1999: the entries of Today and of All Time hold the
  numbers of resumes created at or after midnight of the day (1) and at or after 2000-01-01
  (2). Two resumes were created at or after the start of the week and of the month, which
  is Monday 2024-01-01 at midnight for both, and the entries of This Week and of This Month
  hold the total 1.
\<close>

theorem week_and_month_totals_miss_resumes:
  "get_resume_metrics example_db example_now =
     Inr [(''Today'', \<lparr>m_total = 1, m_ats_score = 85, m_keyword_score = 60, m_high_scoring = 1\<rparr>),
          (''This Week'', \<lparr>m_total = 1, m_ats_score = 85, m_keyword_score = 60, m_high_scoring = 1\<rparr>),
          (''This Month'', \<lparr>m_total = 1, m_ats_score = 85, m_keyword_score = 60, m_high_scoring = 1\<rparr>),
          (''All Time'', \<lparr>m_total = 2, m_ats_score = 70, m_keyword_score = 50, m_high_scoring = 1\<rparr>)] \<and>
   weekday (datetime_ymd 2024 1 1) = 0 \<and>
   card (rd_id ` in_window example_db (datetime_ymd 2024 1 3)) = 1 \<and>
   card (rd_id ` in_window example_db (datetime_ymd 2024 1 1)) = 2 \<and>
   card (rd_id ` in_window example_db (datetime_ymd 2000 1 1)) = 2"
proof -
  have today: "card (rd_id ` in_window example_db (datetime_ymd 2024 1 3)) = 1"
    by (simp add: in_window_filter example_db_def at_or_after_def fields_def datetime_ymd_def)
  have monday: "card (rd_id ` in_window example_db (datetime_ymd 2024 1 1)) = 2"
    by (simp add: in_window_filter example_db_def at_or_after_def fields_def datetime_ymd_def)
  have all_time: "card (rd_id ` in_window example_db (datetime_ymd 2000 1 1)) = 2"
    by (simp add: in_window_filter example_db_def at_or_after_def fields_def datetime_ymd_def)
  show ?thesis
    by (intro conjI get_resume_metrics_example monday_of_example_week today monday all_time)
qed

subsection \<open>The trend of the last seven days\<close>

lemma minus_days_Suc_last:
  "minus_days dt (Suc k) =
     (case minus_days dt k of
        Inl e \<Rightarrow> Inl e
      | Inr d \<Rightarrow> (case prev_day d of None \<Rightarrow> Inl OverflowError | Some p \<Rightarrow> Inr p))"
proof (induction k arbitrary: dt)
  case 0
  show ?case by (simp split: option.splits)
next
  case (Suc k)
  show ?case
  proof (cases "prev_day dt")
    case None
    then show ?thesis by simp
  next
    case (Some p)
    have "minus_days dt (Suc (Suc k)) = minus_days p (Suc k)" using Some by simp
    also have "\<dots> = (case minus_days p k of
        Inl e \<Rightarrow> Inl e
      | Inr d \<Rightarrow> (case prev_day d of None \<Rightarrow> Inl OverflowError | Some p \<Rightarrow> Inr p))"
      by (rule Suc.IH)
    also have "minus_days p k = minus_days dt (Suc k)" using Some by simp
    finally show ?thesis .
  qed
qed

lemma prev_day_before:
  assumes "prev_day d = Some p" "valid_datetime d"
  shows "day_before p d"
  using assms
  by (auto simp: prev_day_def day_before_def valid_datetime_def split: if_splits)

lemma day_before_trans: "day_before a b \<Longrightarrow> day_before b c \<Longrightarrow> day_before a c"
  by (auto simp: day_before_def)

lemma last3_strftime_date: "last3 (strftime_date d) = CHR ''-'' # pad2 (day d)"
  by (simp add: last3_def strftime_date_def pad4_def pad2_def)

lemma sql_date_strftime: "sql_date d = strftime_date d"
  by (simp add: sql_date_def stored_text_def strftime_datetime_def strftime_date_def pad4_def pad2_def)

lemma strftime_date_eq_iff:
  assumes "valid_datetime a" "valid_datetime b"
  shows "strftime_date a = strftime_date b \<longleftrightarrow> same_day a b"
  using valid_printable [OF assms(1)] valid_printable [OF assms(2)]
  by (simp add: strftime_date_def same_day_def pad4_eq_iff pad2_eq_iff)

lemma count_created_on_same_day:
  assumes "valid_database db" "valid_datetime d"
  shows "count_created_on db (strftime_date d) =
         int (length (filter (\<lambda>rd. same_day (created_at rd) d) (resume_data db)))"
proof -
  have "filter (\<lambda>rd. sql_date (created_at rd) = strftime_date d) (resume_data db) =
        filter (\<lambda>rd. same_day (created_at rd) d) (resume_data db)"
    using assms by (intro filter_cong refl) (simp add: sql_date_strftime strftime_date_eq_iff valid_database_def)
  then show ?thesis by (simp add: count_created_on_def)
qed


lemma minus_days_chain:
  "valid_datetime now \<Longrightarrow> n < year now \<Longrightarrow>
   \<exists>ds. length ds = Suc n \<and> map (minus_days now) (rev [0..<Suc n]) = map Inr ds \<and>
        last ds = now \<and> sorted_wrt day_before ds \<and> list_all valid_datetime ds"
proof (induction n)
  case 0
  have "map (minus_days now) (rev [0..<Suc 0]) = map Inr [now]" by simp
  then show ?case using 0 by (intro exI [of _ "[now]"]) simp
next
  case (Suc n)
  from Suc.prems have "n < year now" by simp
  from Suc.IH [OF Suc.prems(1) this] obtain ds where ds: "length ds = Suc n"
    "map (minus_days now) (rev [0..<Suc n]) = map Inr ds"
    "last ds = now" "sorted_wrt day_before ds" "list_all valid_datetime ds"
    by (elim exE conjE)
  from ds(1) obtain b bs where bs: "ds = b # bs" by (cases ds) auto
  have b: "minus_days now n = Inr b" using ds(2) bs by simp
  have vb: "valid_datetime b" using ds(5) bs by simp
  from minus_days_valid [OF Suc.prems] obtain a where
    a: "minus_days now (Suc n) = Inr a" and va: "valid_datetime a" by blast
  have "Inr a = (case prev_day b of None \<Rightarrow> Inl OverflowError | Some p \<Rightarrow> Inr p)"
    using minus_days_Suc_last [of now n] unfolding a b by simp
  then have "prev_day b = Some a" by (cases "prev_day b") simp_all
  then have ab: "day_before a b" using vb by (rule prev_day_before)
  have "\<forall>x \<in> set bs. day_before a x"
    using ds(4) bs ab day_before_trans by auto
  then have sorted: "sorted_wrt day_before (a # ds)" using ds(4) ab bs by simp
  have m: "map (minus_days now) (rev [0..<Suc (Suc n)]) = map Inr (a # ds)"
    using a ds(2) by simp
  have l: "last (a # ds) = now" using ds(3) bs by simp
  show ?case
    using ds(1) m l sorted va ds(5) by (intro exI [of _ "a # ds"]) simp
qed

lemma dates_back_map:
  "map (minus_days now) xs = map Inr ds \<Longrightarrow> dates_back now xs = Inr (map strftime_date ds)"
proof (induction xs arbitrary: ds)
  case Nil
  then show ?case by simp
next
  case (Cons x xs)
  then obtain d ds' where "ds = d # ds'" "minus_days now x = Inr d"
    "map (minus_days now) xs = map Inr ds'" by (cases ds) auto
  then show ?case using Cons.IH [of ds'] by simp
qed

lemma range_6_down_eq: "range_6_down = [6, 5, 4, 3, 2, 1, 0]"
  by (simp add: range_6_down_def upt_rec)

lemma minus_days_numeral:
  "minus_days dt (numeral k) =
     (case prev_day dt of None \<Rightarrow> Inl OverflowError | Some p \<Rightarrow> minus_days p (pred_numeral k))"
  by (simp add: numeral_eq_Suc)

lemma minus_days_1:
  "minus_days dt 1 = (case prev_day dt of None \<Rightarrow> Inl OverflowError | Some p \<Rightarrow> Inr p)"
  by (simp split: option.splits)

text \<open>
  C5. On a database of valid timestamps and at every time the clock can show,
  \<^verbatim>\<open>get_weekly_trends\<close> returns exactly 7 labels and 7 counts, one pair for each of the days
  \<open>now - 6 days, \<dots>, now - 0 days\<close> in this order: the days ascend by calendar date and
  the last one is today. Each label is \<open>-\<close> followed by the two digits of the day of the
  month, that is the last three characters of the date string; each count is the number of
  records created on that calendar day, whatever the time of day, and is not negative.
\<close>

theorem seven_day_trend:
  assumes "valid_database db" "clock_time now"
  shows "\<exists>ds. length ds = 7 \<and> last ds = now \<and>
      map (minus_days now) [6, 5, 4, 3, 2, 1, 0] = map Inr ds \<and>
      sorted_wrt day_before ds \<and>
      get_weekly_trends db now =
        Inr (map (\<lambda>d. CHR ''-'' # pad2 (day d)) ds,
             map (\<lambda>d. int (length (filter (\<lambda>rd. same_day (created_at rd) d) (resume_data db)))) ds) \<and>
      map (\<lambda>d. CHR ''-'' # pad2 (day d)) ds = map (\<lambda>d. last3 (strftime_date d)) ds \<and>
      list_all (\<lambda>d. 0 \<le> int (length (filter (\<lambda>rd. same_day (created_at rd) d) (resume_data db)))) ds"
proof -
  from assms(2) have v: "valid_datetime now" and y: "6 < year now"
    by (simp_all add: clock_time_def)
  from minus_days_chain [OF v y] obtain ds where ds: "length ds = 7"
    "map (minus_days now) (rev [0..<7]) = map Inr ds"
    "last ds = now" "sorted_wrt day_before ds" "list_all valid_datetime ds"
    by (elim exE conjE) simp
  have m: "map (minus_days now) [6, 5, 4, 3, 2, 1, 0] = map Inr ds"
    using ds(2) range_6_down_eq by (simp add: range_6_down_def)
  have "dates_back now range_6_down = Inr (map strftime_date ds)"
    using ds(2) by (simp add: range_6_down_def dates_back_map)
  then have "get_weekly_trends db now =
      Inr (map last3 (map strftime_date ds), map (count_created_on db) (map strftime_date ds))"
    by (simp add: get_weekly_trends_def)
  moreover have "map last3 (map strftime_date ds) = map (\<lambda>d. CHR ''-'' # pad2 (day d)) ds"
    by (simp add: last3_strftime_date)
  moreover have "map (count_created_on db) (map strftime_date ds) =
      map (\<lambda>d. int (length (filter (\<lambda>rd. same_day (created_at rd) d) (resume_data db)))) ds"
    using ds(5) count_created_on_same_day [OF assms(1)] by (simp add: list_all_iff)
  ultimately have g: "get_weekly_trends db now =
        Inr (map (\<lambda>d. CHR ''-'' # pad2 (day d)) ds,
             map (\<lambda>d. int (length (filter (\<lambda>rd. same_day (created_at rd) d) (resume_data db)))) ds)"
    by simp
  have lab: "map (\<lambda>d. CHR ''-'' # pad2 (day d)) ds = map (\<lambda>d. last3 (strftime_date d)) ds"
    by (simp add: last3_strftime_date)
  have nonneg: "list_all (\<lambda>d. 0 \<le> int (length (filter (\<lambda>rd. same_day (created_at rd) d) (resume_data db)))) ds"
    by (simp add: list_all_iff)
  show ?thesis
    by (intro exI [of _ ds] conjI ds(1) ds(3) m ds(4) g lab nonneg)
qed

theorem seven_day_trend_witness:
  "valid_database trend_db \<and> clock_time trend_now \<and>
   get_weekly_trends trend_db trend_now =
     Inr ([''-26'', ''-27'', ''-28'', ''-29'', ''-01'', ''-02'', ''-03''], [0, 0, 0, 1, 0, 0, 0])"
proof -
  have db: "valid_database trend_db"
    by (simp add: valid_database_def trend_db_def valid_datetime_def days_in_month_def is_leap_def)
  have now: "clock_time trend_now"
    by (simp add: clock_time_def trend_now_def valid_datetime_def days_in_month_def)
  let ?t = "\<lambda>m d. \<lparr>year = 2024, month = m, day = d, hour = 15, minute = 30, second = 45,
                     microsecond = 0\<rparr>"
  let ?ds = "[?t 2 26, ?t 2 27, ?t 2 28, ?t 2 29, ?t 3 1, ?t 3 2, ?t 3 3]"
  from seven_day_trend [OF db now] obtain ds where
    m: "map (minus_days trend_now) [6, 5, 4, 3, 2, 1, 0] = map Inr ds" and
    g: "get_weekly_trends trend_db trend_now =
        Inr (map (\<lambda>d. CHR ''-'' # pad2 (day d)) ds,
             map (\<lambda>d. int (length (filter (\<lambda>rd. same_day (created_at rd) d)
                                       (resume_data trend_db)))) ds)"
    by (elim exE conjE)
  have "map (minus_days trend_now) [6, 5, 4, 3, 2, 1, 0] = map Inr ?ds"
    by (simp add: minus_days_numeral minus_days_1 prev_day_def trend_now_def days_in_month_def
        is_leap_def)
  with m have "map Inr ds = (map Inr ?ds :: (error + datetime) list)" by simp
  then have "ds = ?ds" by (simp only: inj_map_eq_map [OF inj_Inr])
  with g have "get_weekly_trends trend_db trend_now =
     Inr ([''-26'', ''-27'', ''-28'', ''-29'', ''-01'', ''-02'', ''-03''], [0, 0, 0, 1, 0, 0, 0])"
    by (simp add: pad2_def digit_def trend_db_def same_day_def)
  with db now show ?thesis by (intro conjI)
qed

subsection \<open>The feedback statistics\<close>

lemma df_empty_read_sql_query: "df_empty (read_sql_query s) \<longleftrightarrow> feedback s = []"
  by (auto simp: df_empty_def read_sql_query_def Let_def)

text \<open>The four integer columns alone have their means.\<close>

lemma numeric_columns_mean:
  "df_mean_to_dict
     [(''id'', Int64 (map fb_id rows)), (''rating'', Int64 (map fb_rating rows)),
      (''usability_score'', Int64 (map fb_usability_score rows)),
      (''feature_satisfaction'', Int64 (map fb_feature_satisfaction rows))] =
   Inr [''feature_satisfaction'' \<mapsto> column_mean (map fb_feature_satisfaction rows),
        ''usability_score'' \<mapsto> column_mean (map fb_usability_score rows),
        ''rating'' \<mapsto> column_mean (map fb_rating rows),
        ''id'' \<mapsto> column_mean (map fb_id rows)]"
  by simp

lemma column_mean_5_3_4: "column_mean [5, 3, 4] = 4"
  by (simp add: column_mean_def)

text \<open>
  The frame of the table has text columns, so with a record in the store the mean raises.
\<close>

lemma df_mean_to_dict_read_sql_query: "df_mean_to_dict (read_sql_query s) = Inl TypeError"
  by (simp add: read_sql_query_def Let_def)

lemma get_feedback_stats_raises:
  "feedback s \<noteq> [] \<Longrightarrow> get_feedback_stats s = Inl TypeError"
  by (simp add: get_feedback_stats_def Let_def df_empty_read_sql_query
      df_mean_to_dict_read_sql_query)

lemma get_feedback_stats_no_records:
  "feedback s = [] \<Longrightarrow> get_feedback_stats s = Inr Map.empty"
  by (simp add: get_feedback_stats_def Let_def df_empty_read_sql_query)

lemma feedback_save_feedback: "feedback (save_feedback s fd now) \<noteq> []"
  by (simp add: save_feedback_def Let_def)

text \<open>
  C6. On the store with the three records of ratings 5, 3 and 4,
  \<^verbatim>\<open>get_feedback_stats\<close> raises \<^verbatim>\<open>TypeError\<close> and returns no mean, where the mean rating
  would be 4; on the store without records it returns the empty dictionary.
\<close>

theorem feedback_stats_raises_on_three_ratings:
  "map fb_rating (feedback three_feedback_db) = [5, 3, 4] \<and>
   column_mean (map fb_rating (feedback three_feedback_db)) = 4 \<and>
   get_feedback_stats three_feedback_db = Inl TypeError \<and>
   get_feedback_stats empty_feedback_db = Inr Map.empty"
proof -
  have r: "map fb_rating (feedback three_feedback_db) = [5, 3, 4]"
    by (simp add: three_feedback_db_def save_feedback_def Let_def empty_feedback_db_def
        example_feedback_def)
  have m: "column_mean (map fb_rating (feedback three_feedback_db)) = 4"
    by (simp only: r column_mean_5_3_4)
  have "feedback three_feedback_db \<noteq> []"
    unfolding three_feedback_db_def by (rule feedback_save_feedback)
  then have t: "get_feedback_stats three_feedback_db = Inl TypeError"
    by (rule get_feedback_stats_raises)
  have "feedback empty_feedback_db = []" by (simp add: empty_feedback_db_def)
  then have e: "get_feedback_stats empty_feedback_db = Inr Map.empty"
    by (rule get_feedback_stats_no_records)
  show ?thesis by (intro conjI r m t e)
qed

text \<open>
  C7. After \<^verbatim>\<open>save_feedback\<close> of one record into the store without records,
  \<^verbatim>\<open>get_feedback_stats\<close> raises \<^verbatim>\<open>TypeError\<close>: the saved ratings 5, 4 and 3 do not come
  back.
\<close>

theorem round_trip_raises:
  "feedback empty_feedback_db = [] \<and>
   map (\<lambda>row. (fb_rating row, fb_usability_score row, fb_feature_satisfaction row))
     (feedback (save_feedback empty_feedback_db (example_feedback 5) example_now)) = [(5, 4, 3)] \<and>
   get_feedback_stats (save_feedback empty_feedback_db (example_feedback 5) example_now) =
     Inl TypeError"
proof -
  have e: "feedback empty_feedback_db = []" by (simp add: empty_feedback_db_def)
  have s: "map (\<lambda>row. (fb_rating row, fb_usability_score row, fb_feature_satisfaction row))
     (feedback (save_feedback empty_feedback_db (example_feedback 5) example_now)) = [(5, 4, 3)]"
    by (simp add: save_feedback_def Let_def empty_feedback_db_def example_feedback_def)
  have t: "get_feedback_stats (save_feedback empty_feedback_db (example_feedback 5) example_now) =
     Inl TypeError"
    by (rule get_feedback_stats_raises [OF feedback_save_feedback])
  show ?thesis by (intro conjI e s t)
qed

subsection \<open>The skill histogram\<close>

lemma instr_first:
  "c \<notin> set p \<Longrightarrow> instr (p @ c # t) c = Suc (length p)"
  by (induction p) auto

lemma split_on_commas_no_comma:
  "CHR '','' \<notin> set p \<Longrightarrow> split_on_commas p = [p]"
  by (induction p) auto

lemma split_on_commas_first:
  "CHR '','' \<notin> set p \<Longrightarrow> split_on_commas (p @ CHR '','' # t) = p # split_on_commas t"
  by (induction p) auto

lemma split_step:
  assumes "CHR '','' \<notin> set p"
  shows "split skill (p @ CHR '','' # t) =
         Option.bind (split p t) (\<lambda>rows. Some ((skill, p @ CHR '','' # t) # rows))"
proof -
  have i: "instr (p @ CHR '','' # t) CHR '','' = Suc (length p)"
    using assms by (rule instr_first)
  have a: "substr3 (p @ CHR '','' # t) 0 (Suc (length p)) = p"
    by (simp add: substr3_def)
  have b: "substr2 (p @ CHR '','' # t) (Suc (Suc (length p))) = t"
    by (simp add: substr2_def)
  have "split skill (p @ CHR '','' # t) =
     Option.bind
       (split (substr3 (p @ CHR '','' # t) 0 (instr (p @ CHR '','' # t) CHR '',''))
              (substr2 (p @ CHR '','' # t) (instr (p @ CHR '','' # t) CHR '','' + 1)))
       (\<lambda>rows. Some ((skill, p @ CHR '','' # t) # rows))"
    by (subst split.simps) simp
  then show ?thesis by (simp add: i a b)
qed

lemma split_end: "split skill [] = Some [(skill, [])]"
  by (subst split.simps) simp

lemma split_skills:
  "\<exists>rows. split skill (s @ '','') = Some rows \<and> map fst rows = skill # split_on_commas s"
proof (induction "length s" arbitrary: s skill rule: less_induct)
  case less
  show ?case
  proof (cases "CHR '','' \<in> set s")
    case False
    then have "split skill (s @ '','') = Some [(skill, s @ '',''), (s, [])]"
      using split_step [of s skill "[]"] by (simp add: split_end)
    then show ?thesis using False by (simp add: split_on_commas_no_comma)
  next
    case True
    from split_list_first [OF this]
    obtain p t where s: "s = p @ CHR '','' # t" and p: "CHR '','' \<notin> set p"
      by (elim exE conjE)
    have "length t < length s" using s by simp
    from less [OF this, of p] obtain rows where
      rows: "split p (t @ '','') = Some rows" "map fst rows = p # split_on_commas t"
      by (elim exE conjE)
    have "split skill (s @ '','') = Some ((skill, s @ '','') # rows)"
      using split_step [OF p, of skill "t @ '',''"] rows(1) s by simp
    then show ?thesis using rows(2) s p by (simp add: split_on_commas_first)
  qed
qed

lemma split_table_tokens:
  "\<exists>tbl. split_table rds = Some tbl \<and>
         filter (\<lambda>skill. skill \<noteq> []) (map fst tbl) = concat (map (\<lambda>rd. tokens (skills rd)) rds)"
proof (induction rds)
  case Nil
  show ?case by simp
next
  case (Cons rd rds)
  then obtain tbl where tbl: "split_table rds = Some tbl"
    "filter (\<lambda>skill. skill \<noteq> []) (map fst tbl) = concat (map (\<lambda>rd. tokens (skills rd)) rds)"
    by (elim exE conjE)
  from split_skills [of "[]" "skills rd"] obtain rows where
    rows: "split [] (skills rd @ '','') = Some rows" "map fst rows = [] # split_on_commas (skills rd)"
    by (elim exE conjE)
  have "split_table (rd # rds) = Some (rows @ tbl)" using rows(1) tbl(1) by simp
  moreover have "filter (\<lambda>skill. skill \<noteq> []) (map fst (rows @ tbl)) =
      concat (map (\<lambda>rd. tokens (skills rd)) (rd # rds))"
    using rows(2) tbl(2) by (simp add: tokens_def)
  ultimately show ?case by (intro exI [of _ "rows @ tbl"] conjI)
qed

lemma group_count_tokens:
  assumes "split_table (resume_data db) = Some tbl"
  shows "group_count tbl = map (\<lambda>t. (t, occurrences db t)) (remdups (all_tokens db))"
proof -
  from split_table_tokens [of "resume_data db"] assms
  have "filter (\<lambda>skill. skill \<noteq> []) (map fst tbl) = all_tokens db"
    by (simp add: all_tokens_def)
  then show ?thesis by (simp add: group_count_def occurrences_def Let_def)
qed

lemma get_skill_distribution_iff:
  "get_skill_distribution db res \<longleftrightarrow>
     (\<exists>out. order_by_count_desc (skill_groups db) out \<and>
            res = (map fst (take 10 out), map snd (take 10 out)))"
proof
  assume "get_skill_distribution db res"
  then show "\<exists>out. order_by_count_desc (skill_groups db) out \<and>
            res = (map fst (take 10 out), map snd (take 10 out))"
  proof cases
    case (1 tbl out fetched)
    from group_count_tokens [OF 1(2)] 1(3) have "order_by_count_desc (skill_groups db) out"
      by (simp add: skill_groups_def)
    with 1(1,4) show ?thesis by blast
  qed
next
  assume "\<exists>out. order_by_count_desc (skill_groups db) out \<and>
            res = (map fst (take 10 out), map snd (take 10 out))"
  then obtain out where out: "order_by_count_desc (skill_groups db) out"
    "res = (map fst (take 10 out), map snd (take 10 out))" by blast
  from split_table_tokens [of "resume_data db"] obtain tbl where
    tbl: "split_table (resume_data db) = Some tbl" by blast
  from group_count_tokens [OF tbl] out(1) have "order_by_count_desc (group_count tbl) out"
    by (simp add: skill_groups_def)
  from get_skill_distribution.intros [OF tbl this refl] show "get_skill_distribution db res"
    by (simp add: out(2))
qed

lemma token_nonempty: "t \<in> set (all_tokens db) \<Longrightarrow> t \<noteq> []"
  by (auto simp: all_tokens_def tokens_def)

lemma occurrences_pos: "t \<in> set (all_tokens db) \<Longrightarrow> 0 < occurrences db t"
  using count_list_0_iff [of "all_tokens db" t] by (simp add: occurrences_def)

lemma in_skill_groups:
  "(t, c) \<in> set (skill_groups db) \<longleftrightarrow> t \<in> set (all_tokens db) \<and> c = occurrences db t"
  by (auto simp: skill_groups_def)

lemma ordered_groups:
  assumes "order_by_count_desc (skill_groups db) out"
  shows "length out = card (set (all_tokens db))"
    and "distinct (map fst out)"
    and "set out = set (skill_groups db)"
    and "sorted_wrt (\<lambda>a b. snd b \<le> snd a) out"
proof -
  from assms have m: "mset out = mset (skill_groups db)"
    and s: "sorted_wrt (\<lambda>a b. snd b \<le> snd a) out"
    by (simp_all add: order_by_count_desc_def)
  show "sorted_wrt (\<lambda>a b. snd b \<le> snd a) out" by (rule s)
  from m have "length out = length (skill_groups db)" by (rule mset_eq_length)
  then show "length out = card (set (all_tokens db))"
    by (simp add: skill_groups_def length_remdups_card_conv)
  from m show "set out = set (skill_groups db)" by (rule mset_eq_setD)
  from m have "mset (map fst out) = mset (map fst (skill_groups db))" by simp
  moreover have "map fst (skill_groups db) = remdups (all_tokens db)"
    by (simp add: skill_groups_def comp_def)
  ultimately have "mset (map fst out) = mset (remdups (all_tokens db))" by simp
  then show "distinct (map fst out)"
    using distinct_remdups mset_eq_imp_distinct_iff by blast
qed

lemma ordered_groups_exist: "\<exists>out. order_by_count_desc groups out"
proof -
  let ?out = "rev (sort_key snd groups)"
  have "sorted (map snd (sort_key snd groups))" by (rule sorted_sort_key)
  then have "sorted_wrt (\<lambda>a b. snd a \<le> snd b) (sort_key snd groups)"
    by (simp add: sorted_wrt_map)
  then have "sorted_wrt (\<lambda>a b. snd b \<le> snd a) ?out"
    by (simp add: sorted_wrt_rev)
  then have "order_by_count_desc groups ?out" by (simp add: order_by_count_desc_def)
  then show ?thesis ..
qed

lemma mset_eq_three:
  assumes "mset out = mset [a, b, c]"
  shows "out = [a, b, c] \<or> out = [a, c, b] \<or> out = [b, a, c] \<or> out = [b, c, a] \<or>
         out = [c, a, b] \<or> out = [c, b, a]"
proof -
  from assms have "length out = 3" using mset_eq_length by fastforce
  then obtain x y z where out: "out = [x, y, z]"
    by (auto simp: length_Suc_conv numeral_3_eq_3)
  from assms show ?thesis
    unfolding out by (auto simp: add_eq_conv_ex)
qed

lemma mset_eq_two:
  assumes "mset out = mset [a, b]"
  shows "out = [a, b] \<or> out = [b, a]"
proof -
  from assms have "length out = 2" using mset_eq_length by fastforce
  then obtain x y where out: "out = [x, y]"
    by (auto simp: length_Suc_conv numeral_2_eq_2)
  from assms show ?thesis
    unfolding out by (auto simp: add_eq_conv_ex)
qed

lemma order_two:
  assumes "snd a = snd b"
  shows "order_by_count_desc [a, b] out \<longleftrightarrow> out = [a, b] \<or> out = [b, a]"
proof
  assume o: "order_by_count_desc [a, b] out"
  then have "mset out = mset [a, b]" by (simp add: order_by_count_desc_def)
  from mset_eq_two [OF this] show "out = [a, b] \<or> out = [b, a]" .
next
  assume "out = [a, b] \<or> out = [b, a]"
  then show "order_by_count_desc [a, b] out"
    using assms by (auto simp: order_by_count_desc_def)
qed

lemma order_three_tie_first:
  assumes "snd a = snd b" "snd c < snd a"
  shows "order_by_count_desc [a, b, c] out \<longleftrightarrow> out = [a, b, c] \<or> out = [b, a, c]"
proof
  assume o: "order_by_count_desc [a, b, c] out"
  then have "mset out = mset [a, b, c]" by (simp add: order_by_count_desc_def)
  from mset_eq_three [OF this] o assms show "out = [a, b, c] \<or> out = [b, a, c]"
    by (auto simp: order_by_count_desc_def)
next
  assume "out = [a, b, c] \<or> out = [b, a, c]"
  then show "order_by_count_desc [a, b, c] out"
    using assms by (auto simp: order_by_count_desc_def)
qed

lemma order_three_tie_last:
  assumes "snd b = snd c" "snd b < snd a"
  shows "order_by_count_desc [a, b, c] out \<longleftrightarrow> out = [a, b, c] \<or> out = [a, c, b]"
proof
  assume o: "order_by_count_desc [a, b, c] out"
  then have "mset out = mset [a, b, c]" by (simp add: order_by_count_desc_def)
  from mset_eq_three [OF this] o assms show "out = [a, b, c] \<or> out = [a, c, b]"
    by (auto simp: order_by_count_desc_def)
next
  assume "out = [a, b, c] \<or> out = [a, c, b]"
  then show "order_by_count_desc [a, b, c] out"
    using assms by (auto simp: order_by_count_desc_def)
qed

lemma order_by_count_desc_cong:
  "mset groups = mset groups' \<Longrightarrow>
   order_by_count_desc groups out = order_by_count_desc groups' out"
  by (simp add: order_by_count_desc_def)

lemma all_tokens_skills:
  "all_tokens db = concat (map tokens (map skills (resume_data db)))"
  by (simp add: all_tokens_def comp_def)

lemma skill_groups_python_sql_go:
  assumes "map skills (resume_data db) = [''Python,SQL'', ''Python,Go'', ''SQL'']"
  shows "skill_groups db = [(''Python'', 2), (''Go'', 1), (''SQL'', 2)]"
  by (simp add: skill_groups_def occurrences_def all_tokens_skills assms tokens_def)

lemma results_python_sql_go:
  assumes "map skills (resume_data db) = [''Python,SQL'', ''Python,Go'', ''SQL'']"
  shows "get_skill_distribution db res \<longleftrightarrow>
           res = ([''Python'', ''SQL'', ''Go''], [2, 2, 1]) \<or>
           res = ([''SQL'', ''Python'', ''Go''], [2, 2, 1])"
proof -
  have "get_skill_distribution db res \<longleftrightarrow>
     (\<exists>out. (out = [(''Python'', 2), (''SQL'', 2), (''Go'', 1)] \<or>
             out = [(''SQL'', 2), (''Python'', 2), (''Go'', 1)]) \<and>
            res = (map fst (take 10 out), map snd (take 10 out)))"
    unfolding get_skill_distribution_iff skill_groups_python_sql_go [OF assms]
    by (subst order_by_count_desc_cong [of _ "[(''Python'', 2), (''SQL'', 2), (''Go'', 1)]"], simp)
      (subst order_three_tie_first, simp_all)
  also have "\<dots> \<longleftrightarrow> res = ([''Python'', ''SQL'', ''Go''], [2, 2, 1]) \<or>
           res = ([''SQL'', ''Python'', ''Go''], [2, 2, 1])"
    by (simp add: ex_disj_distrib conj_disj_distribR)
  finally show ?thesis .
qed

lemma skill_groups_python_sql_space:
  assumes "map skills (resume_data db) = [''Python,SQL'', ''Python, SQL'']"
  shows "skill_groups db = [(''SQL'', 1), (''Python'', 2), ('' SQL'', 1)]"
  by (simp add: skill_groups_def occurrences_def all_tokens_skills assms tokens_def)

lemma results_python_sql_space:
  assumes "map skills (resume_data db) = [''Python,SQL'', ''Python, SQL'']"
  shows "get_skill_distribution db res \<longleftrightarrow>
           res = ([''Python'', ''SQL'', '' SQL''], [2, 1, 1]) \<or>
           res = ([''Python'', '' SQL'', ''SQL''], [2, 1, 1])"
proof -
  have "get_skill_distribution db res \<longleftrightarrow>
     (\<exists>out. (out = [(''Python'', 2), (''SQL'', 1), ('' SQL'', 1)] \<or>
             out = [(''Python'', 2), ('' SQL'', 1), (''SQL'', 1)]) \<and>
            res = (map fst (take 10 out), map snd (take 10 out)))"
    unfolding get_skill_distribution_iff skill_groups_python_sql_space [OF assms]
    by (subst order_by_count_desc_cong [of _ "[(''Python'', 2), (''SQL'', 1), ('' SQL'', 1)]"], simp)
      (subst order_three_tie_last, simp_all)
  also have "\<dots> \<longleftrightarrow> res = ([''Python'', ''SQL'', '' SQL''], [2, 1, 1]) \<or>
           res = ([''Python'', '' SQL'', ''SQL''], [2, 1, 1])"
    by (simp add: ex_disj_distrib conj_disj_distribR)
  finally show ?thesis .
qed

lemma tokens_single:
  "t \<noteq> [] \<Longrightarrow> CHR '','' \<notin> set t \<Longrightarrow> tokens t = [t]"
  by (simp add: tokens_def split_on_commas_no_comma)

lemma results_two_tokens:
  assumes "t \<noteq> u" "t \<noteq> []" "u \<noteq> []" "CHR '','' \<notin> set t" "CHR '','' \<notin> set u"
    and "map skills (resume_data db) = [t, u]"
  shows "get_skill_distribution db res \<longleftrightarrow> res = ([t, u], [1, 1]) \<or> res = ([u, t], [1, 1])"
proof -
  have g: "skill_groups db = [(t, 1), (u, 1)]"
    using assms(1-5)
    by (simp add: skill_groups_def occurrences_def all_tokens_skills assms(6) tokens_single)
  have "get_skill_distribution db res \<longleftrightarrow>
     (\<exists>out. (out = [(t, 1), (u, 1)] \<or> out = [(u, 1), (t, 1)]) \<and>
            res = (map fst (take 10 out), map snd (take 10 out)))"
    unfolding get_skill_distribution_iff g
    by (subst order_two) simp_all
  also have "\<dots> \<longleftrightarrow> res = ([t, u], [1, 1]) \<or> res = ([u, t], [1, 1])"
    by (simp add: ex_disj_distrib conj_disj_distribR)
  finally show ?thesis .
qed

lemma split_on_commas_join:
  "ps \<noteq> [] \<Longrightarrow> \<forall>p \<in> set ps. CHR '','' \<notin> set p \<Longrightarrow> split_on_commas (join_commas ps) = ps"
proof (induction ps rule: join_commas.induct)
  case 1
  then show ?case by simp
next
  case (2 p)
  then show ?case by (simp add: split_on_commas_no_comma)
next
  case (3 p q ps)
  then show ?case by (simp add: split_on_commas_first)
qed

text \<open>
  C2. On every database \<^verbatim>\<open>get_skill_distribution\<close> has a result. Every result lists
  \<open>min 10 n\<close> different tokens, \<open>n\<close> being the number of different non-empty tokens that
  splitting the skills fields on commas gives; each token comes with the number of its
  occurrences across all records; the counts do not increase along the list; and no token
  left out occurs more often than a listed one. Ties may come in any order: for the
  skills fields \<open>Python,SQL\<close>, \<open>Python,Go\<close> and \<open>SQL\<close> the results are exactly
  Python 2, SQL 2, Go 1 and SQL 2, Python 2, Go 1.
\<close>

theorem top_skills:
  "(\<exists>res. get_skill_distribution db res) \<and>
   (\<forall>names counts. get_skill_distribution db (names, counts) \<longrightarrow>
      length names = min 10 (card (set (all_tokens db))) \<and>
      distinct names \<and>
      list_all2 (\<lambda>t c. t \<noteq> [] \<and> c = occurrences db t \<and> 0 < c) names counts \<and>
      sorted_wrt (\<lambda>c c'. c' \<le> c) counts \<and>
      (\<forall>t \<in> set (all_tokens db) - set names. \<forall>c \<in> set counts. occurrences db t \<le> c)) \<and>
   (map skills (resume_data db) = [''Python,SQL'', ''Python,Go'', ''SQL''] \<longrightarrow>
      (\<forall>res. get_skill_distribution db res \<longleftrightarrow>
         res = ([''Python'', ''SQL'', ''Go''], [2, 2, 1]) \<or>
         res = ([''SQL'', ''Python'', ''Go''], [2, 2, 1])))"
proof (intro conjI allI impI)
  assume "map skills (resume_data db) = [''Python,SQL'', ''Python,Go'', ''SQL'']"
  then show "get_skill_distribution db res \<longleftrightarrow>
         res = ([''Python'', ''SQL'', ''Go''], [2, 2, 1]) \<or>
         res = ([''SQL'', ''Python'', ''Go''], [2, 2, 1])" for res
    by (rule results_python_sql_go)
next
  from ordered_groups_exist [of "skill_groups db"] obtain out where
    "order_by_count_desc (skill_groups db) out" ..
  then have "get_skill_distribution db (map fst (take 10 out), map snd (take 10 out))"
    unfolding get_skill_distribution_iff by blast
  then show "\<exists>res. get_skill_distribution db res" ..
next
  fix names counts
  assume "get_skill_distribution db (names, counts)"
  then obtain out where out: "order_by_count_desc (skill_groups db) out"
    and names: "names = map fst (take 10 out)" and counts: "counts = map snd (take 10 out)"
    unfolding get_skill_distribution_iff by blast
  note og = ordered_groups [OF out]
  show "length names = min 10 (card (set (all_tokens db)))"
    by (simp add: names og(1) min.commute)
  show "distinct names"
    using og(2) by (simp add: names take_map [symmetric] distinct_take)
  have sub: "set (take 10 out) \<subseteq> set (skill_groups db)"
    using set_take_subset [of 10 out] og(3) by simp
  show "list_all2 (\<lambda>t c. t \<noteq> [] \<and> c = occurrences db t \<and> 0 < c) names counts"
    unfolding names counts list_all2_map1 list_all2_map2
    by (rule list_all2_same [THEN iffD2])
      (use sub in_skill_groups token_nonempty occurrences_pos in fastforce)
  have "sorted_wrt (\<lambda>a b. snd b \<le> snd a) (take 10 out)"
    using og(4) by (rule sorted_wrt_take)
  then show "sorted_wrt (\<lambda>c c'. c' \<le> c) counts"
    by (simp add: counts sorted_wrt_map)
  show "\<forall>t \<in> set (all_tokens db) - set names. \<forall>c \<in> set counts. occurrences db t \<le> c"
  proof (intro ballI)
    fix t c
    assume t: "t \<in> set (all_tokens db) - set names" and c: "c \<in> set counts"
    from t have "(t, occurrences db t) \<in> set out"
      by (simp add: og(3) in_skill_groups)
    moreover have "(t, occurrences db t) \<notin> set (take 10 out)"
      using t by (force simp: names)
    ultimately have d: "(t, occurrences db t) \<in> set (drop 10 out)"
      by (metis Un_iff append_take_drop_id set_append)
    from c obtain x where x: "x \<in> set (take 10 out)" "c = snd x"
      by (auto simp: counts)
    have "sorted_wrt (\<lambda>a b. snd b \<le> snd a) (take 10 out @ drop 10 out)"
      using og(4) by simp
    then have "\<forall>a \<in> set (take 10 out). \<forall>b \<in> set (drop 10 out). snd b \<le> snd a"
      unfolding sorted_wrt_append by blast
    with x d show "occurrences db t \<le> c" by force
  qed
qed

theorem top_skills_witness:
  "map skills (resume_data example_db) = [''Python,SQL'', ''Python,Go'', ''SQL''] \<and>
   get_skill_distribution example_db ([''Python'', ''SQL'', ''Go''], [2, 2, 1]) \<and>
   get_skill_distribution example_db ([''SQL'', ''Python'', ''Go''], [2, 2, 1]) \<and>
   \<not> get_skill_distribution example_db ([''Go'', ''Python'', ''SQL''], [1, 2, 2]) \<and>
   occurrences example_db ''Python'' = 2 \<and> occurrences example_db ''SQL'' = 2 \<and>
   occurrences example_db ''Go'' = 1"
proof -
  have sk: "map skills (resume_data example_db) = [''Python,SQL'', ''Python,Go'', ''SQL'']"
    by (simp add: example_db_def)
  note t = top_skills [of example_db]
  from t sk have iff: "get_skill_distribution example_db res \<longleftrightarrow>
         res = ([''Python'', ''SQL'', ''Go''], [2, 2, 1]) \<or>
         res = ([''SQL'', ''Python'', ''Go''], [2, 2, 1])" for res
    by (simp only: simp_thms)
  have r1: "get_skill_distribution example_db ([''Python'', ''SQL'', ''Go''], [2, 2, 1])"
    by (simp add: iff)
  have r2: "get_skill_distribution example_db ([''SQL'', ''Python'', ''Go''], [2, 2, 1])"
    by (simp add: iff)
  have r3: "\<not> get_skill_distribution example_db ([''Go'', ''Python'', ''SQL''], [1, 2, 2])"
    by (simp add: iff)
  from t r1 have "list_all2 (\<lambda>t c. t \<noteq> [] \<and> c = occurrences example_db t \<and> 0 < c)
      [''Python'', ''SQL'', ''Go''] [2, 2, 1]"
    by blast
  then have occ: "occurrences example_db ''Python'' = 2" "occurrences example_db ''SQL'' = 2"
    "occurrences example_db ''Go'' = 1"
    by simp_all
  show ?thesis by (intro conjI sk r1 r2 r3 occ)
qed

text \<open>
  C10. Tokens are taken as they stand between the commas: for pieces without commas,
  the non-empty skills of the rows of \<open>split\<close> are the non-empty pieces themselves. Two
  different tokens, however alike, are two entries with a count each; for the skills
  fields \<open>Python,SQL\<close> and \<open>Python, SQL\<close> every result has Python 2 and, apart, \<open>SQL\<close> 1
  and \<open> SQL\<close> 1.
\<close>

theorem no_token_normalization:
  "(ps \<noteq> [] \<and> (\<forall>p \<in> set ps. CHR '','' \<notin> set p) \<longrightarrow>
      (\<exists>rows. split [] (join_commas ps @ '','') = Some rows \<and>
         filter (\<lambda>skill. skill \<noteq> []) (map fst rows) = filter (\<lambda>p. p \<noteq> []) ps)) \<and>
   (t \<noteq> u \<and> t \<noteq> [] \<and> u \<noteq> [] \<and> CHR '','' \<notin> set t \<and> CHR '','' \<notin> set u \<and>
    map skills (resume_data db) = [t, u] \<longrightarrow>
      (\<forall>res. get_skill_distribution db res \<longleftrightarrow>
         res = ([t, u], [1, 1]) \<or> res = ([u, t], [1, 1]))) \<and>
   (map skills (resume_data db) = [''Python,SQL'', ''Python, SQL''] \<longrightarrow>
      (\<forall>res. get_skill_distribution db res \<longleftrightarrow>
         res = ([''Python'', ''SQL'', '' SQL''], [2, 1, 1]) \<or>
         res = ([''Python'', '' SQL'', ''SQL''], [2, 1, 1])))"
proof (intro conjI impI allI)
  assume "ps \<noteq> [] \<and> (\<forall>p \<in> set ps. CHR '','' \<notin> set p)"
  then have j: "split_on_commas (join_commas ps) = ps" by (simp add: split_on_commas_join)
  from split_skills [of "[]" "join_commas ps"] obtain rows where
    rows: "split [] (join_commas ps @ '','') = Some rows"
    "map fst rows = [] # split_on_commas (join_commas ps)"
    by (elim exE conjE)
  have "filter (\<lambda>skill. skill \<noteq> []) (map fst rows) = filter (\<lambda>p. p \<noteq> []) ps"
    by (simp add: rows(2) j)
  with rows(1) show "\<exists>rows. split [] (join_commas ps @ '','') = Some rows \<and>
         filter (\<lambda>skill. skill \<noteq> []) (map fst rows) = filter (\<lambda>p. p \<noteq> []) ps"
    by (intro exI [of _ rows] conjI)
next
  fix res
  assume "t \<noteq> u \<and> t \<noteq> [] \<and> u \<noteq> [] \<and> CHR '','' \<notin> set t \<and> CHR '','' \<notin> set u \<and>
    map skills (resume_data db) = [t, u]"
  then show "get_skill_distribution db res \<longleftrightarrow>
         res = ([t, u], [1, 1]) \<or> res = ([u, t], [1, 1])"
    using results_two_tokens [of t u db res] by (simp only: simp_thms)
next
  fix res
  assume "map skills (resume_data db) = [''Python,SQL'', ''Python, SQL'']"
  then show "get_skill_distribution db res \<longleftrightarrow>
         res = ([''Python'', ''SQL'', '' SQL''], [2, 1, 1]) \<or>
         res = ([''Python'', '' SQL'', ''SQL''], [2, 1, 1])"
    by (rule results_python_sql_space)
qed

theorem no_token_normalization_witness:
  "map skills (resume_data spaced_db) = [''Python,SQL'', ''Python, SQL''] \<and>
   get_skill_distribution spaced_db ([''Python'', ''SQL'', '' SQL''], [2, 1, 1]) \<and>
   \<not> get_skill_distribution spaced_db ([''Python'', ''SQL''], [2, 2]) \<and>
   map skills (resume_data case_db) = [''python'', ''Python''] \<and>
   get_skill_distribution case_db ([''python'', ''Python''], [1, 1]) \<and>
   \<not> get_skill_distribution case_db ([''python''], [2]) \<and>
   (\<exists>rows. split [] (join_commas [''Python'', '' SQL''] @ '','') = Some rows \<and>
      filter (\<lambda>skill. skill \<noteq> []) (map fst rows) = [''Python'', '' SQL''])"
proof -
  have sk: "map skills (resume_data spaced_db) = [''Python,SQL'', ''Python, SQL'']"
    by (simp add: spaced_db_def)
  have ck: "map skills (resume_data case_db) = [''python'', ''Python'']"
    by (simp add: case_db_def)
  note a = no_token_normalization [of "[''Python'', '' SQL'']" "''python''" "''Python''" case_db]
  note b = no_token_normalization [of "[''Python'', '' SQL'']" "''python''" "''Python''" spaced_db]
  have iff: "get_skill_distribution spaced_db res \<longleftrightarrow>
         res = ([''Python'', ''SQL'', '' SQL''], [2, 1, 1]) \<or>
         res = ([''Python'', '' SQL'', ''SQL''], [2, 1, 1])" for res
    by (rule spec [OF mp [OF b [THEN conjunct2, THEN conjunct2] sk]])
  have h: "''python'' \<noteq> ''Python'' \<and> ''python'' \<noteq> [] \<and> ''Python'' \<noteq> [] \<and>
     CHR '','' \<notin> set ''python'' \<and> CHR '','' \<notin> set ''Python'' \<and>
     map skills (resume_data case_db) = [''python'', ''Python'']"
    by (simp add: ck)
  have iff2: "get_skill_distribution case_db res \<longleftrightarrow>
         res = ([''python'', ''Python''], [1, 1]) \<or> res = ([''Python'', ''python''], [1, 1])" for res
    by (rule spec [OF mp [OF a [THEN conjunct2, THEN conjunct1] h]])
  have p: "[''Python'', '' SQL''] \<noteq> [] \<and> (\<forall>p \<in> set [''Python'', '' SQL'']. CHR '','' \<notin> set p)"
    by simp
  have "\<exists>rows. split [] (join_commas [''Python'', '' SQL''] @ '','') = Some rows \<and>
      filter (\<lambda>skill. skill \<noteq> []) (map fst rows) = filter (\<lambda>p. p \<noteq> []) [''Python'', '' SQL'']"
    by (rule mp [OF a [THEN conjunct1] p])
  then have rows: "\<exists>rows. split [] (join_commas [''Python'', '' SQL''] @ '','') = Some rows \<and>
      filter (\<lambda>skill. skill \<noteq> []) (map fst rows) = [''Python'', '' SQL'']"
    by simp
  have r1: "get_skill_distribution spaced_db ([''Python'', ''SQL'', '' SQL''], [2, 1, 1])"
    by (simp add: iff)
  have r2: "\<not> get_skill_distribution spaced_db ([''Python'', ''SQL''], [2, 2])"
    by (simp add: iff)
  have r3: "get_skill_distribution case_db ([''python'', ''Python''], [1, 1])"
    by (simp add: iff2)
  have r4: "\<not> get_skill_distribution case_db ([''python''], [2])"
    by (simp add: iff2)
  show ?thesis by (intro conjI sk r1 r2 ck r3 r4 rows)
qed

end
